theory Spec2Isabelle
  imports Main "HOL-Library.Sublist"
begin

section \<open>easy-rsync: a shallow embedding of \<^verbatim>\<open>easy-rsync.py\<close>\<close>

text \<open>
  The script drives an external synchronisation tool, splits its output into lines, and
  writes two kinds of list file. The embedding keeps the functions of the script under
  their own names, without the leading underscore (the flag \<^verbatim>\<open>verify_integrity\<close> of
  \<^verbatim>\<open>main\<close> is \<open>verify_integrity_flag\<close>), and makes every effect explicit:
  \<^item> a Python \<^verbatim>\<open>str\<close> is a \<open>string\<close>; the characters are the code points below 256,
    which covers every literal of the script;
  \<^item> a \<^verbatim>\<open>Path\<close> is represented by its \<^verbatim>\<open>str()\<close>;
  \<^item> an \<^verbatim>\<open>Optional[Path]\<close> is a \<open>path option\<close> (a \<^verbatim>\<open>Path\<close> object is always truthy,
    so \<^verbatim>\<open>not p\<close> holds exactly for \<^verbatim>\<open>None\<close>);
  \<^item> an exception is the \<open>Inl\<close> branch of a sum: the \<^verbatim>\<open>ValueError\<close> of \<^verbatim>\<open>_log_and_abort\<close> and
    of \<^verbatim>\<open>str.index\<close>, the \<^verbatim>\<open>CalledProcessError\<close> of \<^verbatim>\<open>subprocess.run\<close>, and the \<^verbatim>\<open>OSError\<close> of
    an \<^verbatim>\<open>open\<close> that fails;
  \<^item> the file system, the file handlers attached to the logger \<^verbatim>\<open>_LOG\<close>, and the events
    so far (the external tool's invocations with their exit status, the files the script
    opens for writing, the records it hands to the logger) are a \<open>world\<close> that every
    function takes and returns;
  \<^item> the file system says which paths are directories, which paths can be opened for
    writing, and what the files hold;
  \<^item> the external tool is a parameter: a function from the command line and the file
    system to an exit status, the captured standard output and the file system it leaves.
    It is taken to start and to print text that decodes.
  A record handed to the logger is a \<open>Log\<close> event, and each file handler appends the
  message and a newline to its file (a handler without a formatter of its own prints the
  bare message; the level of the root logger lets every record through). What the console
  handler prints is not in the world.
\<close>

subsection \<open>Data\<close>

type_synonym path = string

datatype error =
    ValueError string
  | CalledProcessError int "string list"
  | OSError path

datatype level = DEBUG | WARNING | CRITICAL

datatype logarg = ArgStr string | ArgInt int

datatype event =
    Log level string "logarg list"
  | AddHandler path
  | Exec "string list" int
  | Write path string

record fsys =
  is_dir :: "path \<Rightarrow> bool"
  writable :: "path \<Rightarrow> bool"
  files :: "path \<rightharpoonup> string"

record world =
  filesys :: fsys
  handlers :: "path list"
  events :: "event list"

type_synonym tool = "string list \<Rightarrow> fsys \<Rightarrow> int \<times> string \<times> fsys"

definition emit :: "event \<Rightarrow> world \<Rightarrow> world" where
  "emit e w = w\<lparr>events := events w @ [e]\<rparr>"

text \<open>The projections of an event list that the theorems speak about.\<close>

fun execs :: "event list \<Rightarrow> (string list \<times> int) list" where
  "execs [] = []"
| "execs (Exec c rc # es) = (c, rc) # execs es"
| "execs (e # es) = execs es"

fun writes :: "event list \<Rightarrow> (path \<times> string) list" where
  "writes [] = []"
| "writes (Write p s # es) = (p, s) # writes es"
| "writes (e # es) = writes es"



subsection \<open>Strings and paths\<close>

text \<open>\<^verbatim>\<open>s.index(sub)\<close>: the lowest index at which \<open>sub\<close> starts, \<open>None\<close> where Python raises.\<close>

fun str_index :: "string \<Rightarrow> string \<Rightarrow> nat option" where
  "str_index [] sub = (if sub = [] then Some 0 else None)"
| "str_index (c # cs) sub =
     (if take (length sub) (c # cs) = sub then Some 0
      else map_option Suc (str_index cs sub))"

text \<open>\<^verbatim>\<open>sep.join(xs)\<close>.\<close>

fun str_join :: "string \<Rightarrow> string list \<Rightarrow> string" where
  "str_join sep [] = []"
| "str_join sep [x] = x"
| "str_join sep (x # y # ys) = x @ sep @ str_join sep (y # ys)"

text \<open>
  \<^verbatim>\<open>s.splitlines()\<close>: the line boundaries below code point 256 are LF, CR, CR LF, VT, FF,
  FS, GS, RS and NEL; a final boundary does not open an empty last line.
\<close>

definition is_linebreak :: "char \<Rightarrow> bool" where
  "is_linebreak c =
     (c \<in> set [CHR 0x0A, CHR 0x0D, CHR 0x0B, CHR 0x0C, CHR 0x1C, CHR 0x1D, CHR 0x1E, CHR 0x85])"

fun splitlines_from :: "string \<Rightarrow> string \<Rightarrow> string list" where
  "splitlines_from cur [] = (if cur = [] then [] else [cur])"
| "splitlines_from cur (c # cs) =
     (if c = CHR 0x0D \<and> take 1 cs = [CHR 0x0A] then cur # splitlines_from [] (drop 1 cs)
      else if is_linebreak c then cur # splitlines_from [] cs
      else splitlines_from (cur @ [c]) cs)"

definition splitlines :: "string \<Rightarrow> string list" where
  "splitlines s = splitlines_from [] s"

text \<open>
  \<^verbatim>\<open>d / name\<close> on the \<^verbatim>\<open>str()\<close> of a POSIX path: the current directory \<^verbatim>\<open>.\<close> vanishes,
  a root (the only path whose text ends with the separator) takes no second separator.
\<close>

definition path_join :: "path \<Rightarrow> string \<Rightarrow> path" where
  "path_join d name =
     (if d = ''.'' then name
      else if d \<noteq> [] \<and> last d = CHR ''/'' then d @ name
      else d @ ''/'' @ name)"

text \<open>
  \<^verbatim>\<open>fmt % args\<close> for the two conversions the script uses, \<^verbatim>\<open>%s\<close> of a string or path and
  \<^verbatim>\<open>%d\<close> of an integer; without arguments the text stays as it is, as in a log record.
\<close>

fun digits :: "nat \<Rightarrow> string" where
  "digits n =
     (if n < 10 then [''0123456789'' ! n]
      else digits (n div 10) @ [''0123456789'' ! (n mod 10)])"

declare digits.simps [simp del]

definition decimal :: "int \<Rightarrow> string" where
  "decimal i = (if i < 0 then ''-'' @ digits (nat (- i)) else digits (nat i))"

fun render :: "logarg \<Rightarrow> string" where
  "render (ArgStr s) = s"
| "render (ArgInt i) = decimal i"

fun percent_format :: "string \<Rightarrow> logarg list \<Rightarrow> string" where
  "percent_format [] as = []"
| "percent_format (c # cs) as =
     (if c = CHR ''%'' \<and> (take 1 cs = ''s'' \<or> take 1 cs = ''d'') \<and> as \<noteq> []
      then render (hd as) @ percent_format (drop 1 cs) (tl as)
      else c # percent_format cs as)"

text \<open>
  A file opened for appending holds what it held, or nothing if it was not there, and then
  the text appended. \<^verbatim>\<open>_LOG.debug\<close>, \<^verbatim>\<open>_LOG.warning\<close> and \<^verbatim>\<open>_LOG.critical\<close>: the record is an event,
  and every file handler of the logger appends the message and a newline to its file.
\<close>

definition append_file :: "path \<Rightarrow> string \<Rightarrow> fsys \<Rightarrow> fsys" where
  "append_file p s f =
     f\<lparr>files := (files f)(p \<mapsto> (case files f p of None \<Rightarrow> [] | Some c \<Rightarrow> c) @ s)\<rparr>"

definition handlers_emit :: "path list \<Rightarrow> string \<Rightarrow> fsys \<Rightarrow> fsys" where
  "handlers_emit hs line f = fold (\<lambda>p. append_file p line) hs f"

definition log_record :: "level \<Rightarrow> string \<Rightarrow> logarg list \<Rightarrow> world \<Rightarrow> world" where
  "log_record lv fmt args w =
     emit (Log lv fmt args)
       (w\<lparr>filesys := handlers_emit (handlers w) (percent_format fmt args @ [CHR 0x0A])
                         (filesys w)\<rparr>)"

subsection \<open>The functions of the script\<close>

definition RSYNC_FLAGS :: "string list" where
  "RSYNC_FLAGS = [''-rptgo'', ''-i'', ''--out-format=(%i) %n'']"

definition log_and_abort :: "string \<Rightarrow> logarg list \<Rightarrow> world \<Rightarrow> (error + 'a) \<times> world" where
  "log_and_abort fmt args w =
     (Inl (ValueError (percent_format fmt args)), log_record CRITICAL fmt args w)"

definition sanitize_path :: "path \<Rightarrow> world \<Rightarrow> (error + string) \<times> world" where
  "sanitize_path p w =
     (if \<not> is_dir (filesys w) p then log_and_abort ''Path `%s` is not a directory'' [ArgStr p] w
      else (Inr (p @ ''/''), w))"

definition strip_action_prefix :: "string \<Rightarrow> error + string" where
  "strip_action_prefix s =
     (case str_index s '') '' of
        None \<Rightarrow> Inl (ValueError ''substring not found'')
      | Some i \<Rightarrow> Inr (drop (i + 2) s))"

text \<open>
  \<^verbatim>\<open>subprocess.run(cmd, check=True, text=True, capture_output=True)\<close> blocks until the tool
  has ended, and raises \<^verbatim>\<open>CalledProcessError\<close> on an exit status other than 0.
\<close>

definition run_rsync ::
  "tool \<Rightarrow> string list \<Rightarrow> path \<Rightarrow> path \<Rightarrow> bool \<Rightarrow> world \<Rightarrow> (error + string) \<times> world" where
  "run_rsync rsync args src dest dry_run w =
     (let cmd = [''rsync''] @ RSYNC_FLAGS;
          cmd = cmd @ args;
          cmd = (if dry_run then cmd @ [''--dry-run''] else cmd)
      in case sanitize_path src w of
           (Inl e, w1) \<Rightarrow> (Inl e, w1)
         | (Inr s, w1) \<Rightarrow>
             (case sanitize_path dest w1 of
                (Inl e, w2) \<Rightarrow> (Inl e, w2)
              | (Inr d, w2) \<Rightarrow>
                  (let cmd = cmd @ [s] @ [d];
                       w3 = log_record DEBUG ''Running rsync: %s'' [ArgStr (str_join '' '' cmd)] w2;
                       (rc, out, f) = rsync cmd (filesys w3);
                       w4 = emit (Exec cmd rc) (w3\<lparr>filesys := f\<rparr>)
                   in if rc \<noteq> 0 then (Inl (CalledProcessError rc cmd), w4)
                      else (Inr out, if out \<noteq> [] then log_record DEBUG out [] w4 else w4))))"

definition sync_new_files :: "tool \<Rightarrow> path \<Rightarrow> path \<Rightarrow> bool \<Rightarrow> world \<Rightarrow> (error + unit) \<times> world" where
  "sync_new_files rsync src dest dry_run w =
     (case run_rsync rsync [''--ignore-existing''] src dest dry_run w of
        (Inl e, w1) \<Rightarrow> (Inl e, w1)
      | (Inr out, w1) \<Rightarrow> (Inr (), w1))"

definition update_all_files :: "tool \<Rightarrow> path \<Rightarrow> path \<Rightarrow> bool \<Rightarrow> world \<Rightarrow> (error + unit) \<times> world" where
  "update_all_files rsync src dest dry_run w =
     (case run_rsync rsync [] src dest dry_run w of
        (Inl e, w1) \<Rightarrow> (Inl e, w1)
      | (Inr out, w1) \<Rightarrow> (Inr (), w1))"

text \<open>\<^verbatim>\<open>with open(logfile, 'w') as f: f.write(content)\<close>: the file holds \<open>content\<close> afterwards.\<close>

definition open_write :: "path \<Rightarrow> string \<Rightarrow> world \<Rightarrow> (error + unit) \<times> world" where
  "open_write logfile content w =
     (if \<not> writable (filesys w) logfile then (Inl (OSError logfile), w)
      else (Inr (),
            emit (Write logfile content)
              (w\<lparr>filesys := (filesys w)\<lparr>files := (files (filesys w))(logfile \<mapsto> content)\<rparr>\<rparr>)))"

text \<open>The loop \<^verbatim>\<open>for d in [src, dest]\<close> of \<^verbatim>\<open>_check_modified\<close>.\<close>

fun check_modified_loop :: "path list \<Rightarrow> path option \<Rightarrow> string \<Rightarrow> world \<Rightarrow> (error + unit) \<times> world" where
  "check_modified_loop [] modified_file conflicts w = (Inr (), w)"
| "check_modified_loop (d # ds) modified_file conflicts w =
     (let logfile = (case modified_file of
                       None \<Rightarrow> path_join d ''easy-rsync_modified.txt''
                     | Some m \<Rightarrow> m)
      in case open_write logfile conflicts w of
           (Inl e, w1) \<Rightarrow> (Inl e, w1)
         | (Inr u, w1) \<Rightarrow> check_modified_loop ds modified_file conflicts w1)"

definition check_modified ::
  "tool \<Rightarrow> path \<Rightarrow> path \<Rightarrow> path option \<Rightarrow> world \<Rightarrow> (error + string list) \<times> world" where
  "check_modified rsync src dest modified_file w =
     (case run_rsync rsync [] src dest True w of
        (Inl e, w1) \<Rightarrow> (Inl e, w1)
      | (Inr conflicts, w1) \<Rightarrow>
          (let w2 = (if conflicts \<noteq> []
                     then log_record WARNING ''Found %d files that have been modified''
                            [ArgInt (int (length (splitlines conflicts)))] w1
                     else w1)
           in case check_modified_loop [src, dest] modified_file conflicts w2 of
                (Inl e, w3) \<Rightarrow> (Inl e, w3)
              | (Inr u, w3) \<Rightarrow> (Inr (splitlines conflicts), w3)))"

text \<open>
  The dictionary comprehension \<^verbatim>\<open>{_strip_action_prefix(m): True for m in modified}\<close>, from an
  accumulator, and the list comprehension
  \<^verbatim>\<open>[c for c in conflicts if _strip_action_prefix(c) not in modmap]\<close>. Either stops at the
  first line for which \<^verbatim>\<open>_strip_action_prefix\<close> raises.
\<close>

fun modmap_from :: "(string \<rightharpoonup> bool) \<Rightarrow> string list \<Rightarrow> error + (string \<rightharpoonup> bool)" where
  "modmap_from acc [] = Inr acc"
| "modmap_from acc (m # ms) =
     (case strip_action_prefix m of
        Inl e \<Rightarrow> Inl e
      | Inr k \<Rightarrow> modmap_from (acc(k \<mapsto> True)) ms)"

fun conflicting_items_of :: "(string \<rightharpoonup> bool) \<Rightarrow> string list \<Rightarrow> error + string list" where
  "conflicting_items_of modmap [] = Inr []"
| "conflicting_items_of modmap (c # cs) =
     (case strip_action_prefix c of
        Inl e \<Rightarrow> Inl e
      | Inr k \<Rightarrow>
          (case conflicting_items_of modmap cs of
             Inl e \<Rightarrow> Inl e
           | Inr items \<Rightarrow> Inr (if modmap k = None then c # items else items)))"

definition conflicting_items :: "string list \<Rightarrow> string list \<Rightarrow> error + string list" where
  "conflicting_items conflicts modified =
     (case modmap_from Map.empty modified of
        Inl e \<Rightarrow> Inl e
      | Inr modmap \<Rightarrow> conflicting_items_of modmap conflicts)"

text \<open>The loop \<^verbatim>\<open>for d in [src, dest]\<close> of \<^verbatim>\<open>_verify_integrity\<close>.\<close>

fun verify_integrity_loop :: "path list \<Rightarrow> path option \<Rightarrow> string \<Rightarrow> world \<Rightarrow> (error + unit) \<times> world" where
  "verify_integrity_loop [] conflict_file content w = (Inr (), w)"
| "verify_integrity_loop (d # ds) conflict_file content w =
     (let logfile = (case conflict_file of
                       None \<Rightarrow> path_join d ''easy-rsync_conflicts.txt''
                     | Some c \<Rightarrow> c)
      in case open_write logfile content w of
           (Inl e, w1) \<Rightarrow> (Inl e, w1)
         | (Inr u, w1) \<Rightarrow> verify_integrity_loop ds conflict_file content w1)"

definition verify_integrity ::
  "tool \<Rightarrow> path \<Rightarrow> path \<Rightarrow> string list \<Rightarrow> path option \<Rightarrow> world \<Rightarrow> (error + unit) \<times> world" where
  "verify_integrity rsync src dest modified conflict_file w =
     (case run_rsync rsync [''-c''] src dest True w of
        (Inl e, w1) \<Rightarrow> (Inl e, w1)
      | (Inr out, w1) \<Rightarrow>
          (case conflicting_items (splitlines out) modified of
             Inl e \<Rightarrow> (Inl e, w1)
           | Inr items \<Rightarrow>
               (let w2 = (if items \<noteq> []
                          then log_record WARNING ''Found %d files that have bitrot''
                                 [ArgInt (int (length items))] w1
                          else w1)
                in verify_integrity_loop [src, dest] conflict_file
                     (str_join [CHR 0x0A] items) w2)))"

text \<open>
  \<^verbatim>\<open>main\<close>. \<^verbatim>\<open>logging.FileHandler(filename=logfile)\<close> opens the diagnostic log for appending at
  once: it raises where the path cannot be opened, and otherwise the file is there from
  then on and the handler is one more of the logger's.
\<close>

definition main ::
  "tool \<Rightarrow> path \<Rightarrow> path \<Rightarrow> bool \<Rightarrow> bool \<Rightarrow> path option \<Rightarrow> path option \<Rightarrow> path option \<Rightarrow> bool \<Rightarrow>
   world \<Rightarrow> (error + int) \<times> world" where
  "main rsync src dest dry_run force logfile conflict_file modified_file verify_integrity_flag w =
     (case (case logfile of
              None \<Rightarrow> (Inr (), w)
            | Some l \<Rightarrow> (if \<not> writable (filesys w) l then (Inl (OSError l), w)
                         else (Inr (),
                               emit (AddHandler l)
                                 (w\<lparr>filesys := append_file l [] (filesys w),
                                    handlers := handlers w @ [l]\<rparr>)))) of
        (Inl e, w0) \<Rightarrow> (Inl e, w0)
      | (Inr u, w0) \<Rightarrow>
          (if verify_integrity_flag then
             (case check_modified rsync src dest modified_file w0 of
                (Inl e, w1) \<Rightarrow> (Inl e, w1)
              | (Inr modified, w1) \<Rightarrow>
                  (case verify_integrity rsync src dest modified conflict_file w1 of
                     (Inl e, w2) \<Rightarrow> (Inl e, w2)
                   | (Inr u, w2) \<Rightarrow> (Inr 0, w2)))
           else
             (case (if force then update_all_files rsync src dest dry_run w0
                    else sync_new_files rsync src dest dry_run w0) of
                (Inl e, w1) \<Rightarrow> (Inl e, w1)
              | (Inr u, w1) \<Rightarrow>
                  (case check_modified rsync src dest modified_file w1 of
                     (Inl e, w2) \<Rightarrow> (Inl e, w2)
                   | (Inr modified, w2) \<Rightarrow> (Inr 0, w2)))))"

text \<open>
  \<^verbatim>\<open>sys.exit(main(...))\<close>: the status of the process is the value \<^verbatim>\<open>main\<close> returns; an
  exception that nothing catches ends the interpreter with status 1.
\<close>

definition exit_status :: "(error + int) \<times> world \<Rightarrow> int" where
  "exit_status r = (case fst r of Inl e \<Rightarrow> 1 | Inr n \<Rightarrow> n)"

subsection \<open>Vocabulary of the theorems\<close>

text \<open>
  The command line \<^verbatim>\<open>_run_rsync\<close> is expected to build; the file system the tool finds
  when \<^verbatim>\<open>_run_rsync\<close> is called in a world (the one of the world once the command line has
  been logged, which is the world's own when the logger has no file handler) and what the
  tool prints there in a dry run; the world that the logging set-up of \<^verbatim>\<open>main\<close> leaves when
  it does not raise; the places of the two list files, the events a call has added, the invocations among them that ended with a status other
  than 0, the invocation a \<^verbatim>\<open>CalledProcessError\<close> reports, and what it means for the external
  tool to honour \<^verbatim>\<open>--dry-run\<close>: such an invocation leaves the file system as it found it.
\<close>

definition expected_cmd :: "string list \<Rightarrow> path \<Rightarrow> path \<Rightarrow> bool \<Rightarrow> string list" where
  "expected_cmd args src dest dry_run =
     [''rsync'', ''-rptgo'', ''-i'', ''--out-format=(%i) %n''] @ args @
     (if dry_run then [''--dry-run''] else []) @ [src @ ''/'', dest @ ''/'']"

definition modified_path :: "path option \<Rightarrow> path \<Rightarrow> path" where
  "modified_path modified_file d =
     (case modified_file of None \<Rightarrow> path_join d ''easy-rsync_modified.txt'' | Some m \<Rightarrow> m)"

definition conflicts_path :: "path option \<Rightarrow> path \<Rightarrow> path" where
  "conflicts_path conflict_file d =
     (case conflict_file of None \<Rightarrow> path_join d ''easy-rsync_conflicts.txt'' | Some c \<Rightarrow> c)"

definition seen_by_tool :: "world \<Rightarrow> string list \<Rightarrow> fsys" where
  "seen_by_tool w cmd =
     filesys (log_record DEBUG ''Running rsync: %s'' [ArgStr (str_join '' '' cmd)] w)"

definition dry_run_output :: "tool \<Rightarrow> string list \<Rightarrow> path \<Rightarrow> path \<Rightarrow> world \<Rightarrow> string" where
  "dry_run_output rsync args src dest w =
     fst (snd (rsync (expected_cmd args src dest True)
                 (seen_by_tool w (expected_cmd args src dest True))))"

definition after_setup :: "path option \<Rightarrow> world \<Rightarrow> world" where
  "after_setup logfile w =
     (case logfile of
        None \<Rightarrow> w
      | Some l \<Rightarrow> emit (AddHandler l)
                  (w\<lparr>filesys := append_file l [] (filesys w), handlers := handlers w @ [l]\<rparr>))"

definition new_events :: "world \<Rightarrow> world \<Rightarrow> event list" where
  "new_events w w' = drop (length (events w)) (events w')"

definition failed_execs :: "event list \<Rightarrow> (string list \<times> int) list" where
  "failed_execs es = filter (\<lambda>(c, rc). rc \<noteq> 0) (execs es)"

definition raised_by_tool :: "error + 'a \<Rightarrow> (string list \<times> int) list" where
  "raised_by_tool r = (case r of Inl (CalledProcessError rc c) \<Rightarrow> [(c, rc)] | _ \<Rightarrow> [])"

definition honours_dry_run :: "tool \<Rightarrow> bool" where
  "honours_dry_run rsync = (\<forall>cmd f. ''--dry-run'' \<in> set cmd \<longrightarrow> snd (snd (rsync cmd f)) = f)"

subsection \<open>A concrete tool and world\<close>

text \<open>
  Two directories \<^verbatim>\<open>a\<close> and \<^verbatim>\<open>b\<close>, one path \<^verbatim>\<open>ro\<close> that cannot be opened for writing; a
  tool that reports one modified file, two files that differ by checksum and one new file,
  and copies the new file unless it is told \<^verbatim>\<open>--dry-run\<close>; and a tool that always fails.
\<close>

definition demo_fs :: fsys where
  "demo_fs = \<lparr>is_dir = (\<lambda>p. p = ''a'' \<or> p = ''b''), writable = (\<lambda>p. p \<noteq> ''ro''),
              files = Map.empty\<rparr>"

definition demo_world :: world where
  "demo_world = \<lparr>filesys = demo_fs, handlers = [], events = []\<rparr>"

definition demo_rsync :: tool where
  "demo_rsync cmd f =
     (let f' = (if ''--dry-run'' \<in> set cmd then f
                else f\<lparr>files := (files f)(''b/n'' \<mapsto> ''new'')\<rparr>)
      in if ''-c'' \<in> set cmd
         then (0, ''(>fc........) x'' @ [CHR 0x0A] @ ''(>fc........) y'' @ [CHR 0x0A], f')
         else if ''--ignore-existing'' \<in> set cmd then (0, ''(>f+++++++++) n'' @ [CHR 0x0A], f')
         else (0, ''(>f.st......) x'' @ [CHR 0x0A], f'))"

definition failing_rsync :: tool where
  "failing_rsync cmd f = (23, [], f)"

section \<open>Lemmas\<close>

subsection \<open>Finding and stripping the action code\<close>

lemma take_eq_iff_prefix: "(take (length xs) ys = xs) = prefix xs ys"
  by (metis append_eq_conv_conj prefix_def)

lemma str_index_None_iff: "(str_index s sub = None) = (\<not> sublist sub s)"
  by (induction s) (auto simp: take_eq_iff_prefix sublist_Cons_right simp del: take_Suc_Cons)

lemma str_index_first:
  "\<not> sublist '') '' (pre @ '')'') \<Longrightarrow> str_index (pre @ '') '' @ rest) '') '' = Some (length pre)"
proof (induction pre)
  case Nil
  show ?case by simp
next
  case (Cons c pre)
  from Cons.prems have np: "\<not> prefix '') '' (c # pre @ '')'')"
    and ns: "\<not> sublist '') '' (pre @ '')'')"
    by (simp_all add: sublist_Cons_right)
  from np have "take 2 (c # pre @ '') '' @ rest) \<noteq> '') ''"
    by (cases pre) (auto simp: prefix_def)
  with Cons.IH [OF ns] show ?case by simp
qed

lemma strip_first_occurrence:
  "\<not> sublist '') '' (pre @ '')'') \<Longrightarrow> strip_action_prefix (pre @ '') '' @ rest) = Inr rest"
  using str_index_first [of pre rest] by (simp add: strip_action_prefix_def)

lemma strip_no_occurrence:
  "\<not> sublist '') '' s \<Longrightarrow> strip_action_prefix s = Inl (ValueError ''substring not found'')"
  using str_index_None_iff [of s "'') ''"] by (simp add: strip_action_prefix_def)

lemma strip_occurrence: "sublist '') '' s \<Longrightarrow> \<exists>p. strip_action_prefix s = Inr p"
  using str_index_None_iff [of s "'') ''"] by (auto simp: strip_action_prefix_def split: option.splits)

lemma no_paren_no_sublist: "CHR '')'' \<notin> set xs \<Longrightarrow> \<not> sublist '') '' (xs @ '')'')"
  by (induction xs) (auto simp: sublist_Cons_right prefix_def)

lemma strip_code_path:
  "CHR '')'' \<notin> set code \<Longrightarrow> strip_action_prefix (''('' @ code @ '') '' @ p) = Inr p"
  using strip_first_occurrence [of "''('' @ code" p] no_paren_no_sublist [of "''('' @ code"]
  by simp


subsection \<open>The two comprehensions of the integrity check\<close>

lemma modmap_from_ok:
  "\<forall>m\<in>set ms. sublist '') '' m \<Longrightarrow>
   \<exists>mm. modmap_from acc ms = Inr mm \<and>
        (\<forall>k. (mm k = None) = (acc k = None \<and> Inr k \<notin> strip_action_prefix ` set ms))"
proof (induction ms arbitrary: acc)
  case Nil
  show ?case by simp
next
  case (Cons m ms)
  from Cons.prems obtain p where p: "strip_action_prefix m = Inr p"
    using strip_occurrence [of m] by auto
  from Cons.prems have "\<forall>m\<in>set ms. sublist '') '' m" by simp
  from Cons.IH [OF this, of "acc(p \<mapsto> True)"] obtain mm where
    mm: "modmap_from (acc(p \<mapsto> True)) ms = Inr mm"
    and dom: "\<forall>k. (mm k = None) = ((acc(p \<mapsto> True)) k = None \<and> Inr k \<notin> strip_action_prefix ` set ms)"
    by blast
  from mm p have "modmap_from acc (m # ms) = Inr mm" by simp
  moreover from dom p
  have "\<forall>k. (mm k = None) = (acc k = None \<and> Inr k \<notin> strip_action_prefix ` set (m # ms))"
    by auto
  ultimately show ?case by blast
qed

lemma modmap_from_fail:
  "\<exists>m\<in>set ms. \<not> sublist '') '' m \<Longrightarrow>
   modmap_from acc ms = Inl (ValueError ''substring not found'')"
proof (induction ms arbitrary: acc)
  case Nil
  then show ?case by simp
next
  case (Cons m ms)
  show ?case
  proof (cases "sublist '') '' m")
    case True
    then obtain p where "strip_action_prefix m = Inr p"
      using strip_occurrence by blast
    moreover from True Cons.prems have "\<exists>m\<in>set ms. \<not> sublist '') '' m" by auto
    ultimately show ?thesis using Cons.IH by simp
  next
    case False
    then show ?thesis by (simp add: strip_no_occurrence)
  qed
qed

lemma conflicting_items_of_ok:
  "\<forall>c\<in>set cs. sublist '') '' c \<Longrightarrow>
   conflicting_items_of mm cs =
     Inr (filter (\<lambda>c. \<exists>k. strip_action_prefix c = Inr k \<and> mm k = None) cs)"
proof (induction cs)
  case Nil
  show ?case by simp
next
  case (Cons c cs)
  from Cons.prems obtain p where "strip_action_prefix c = Inr p"
    using strip_occurrence [of c] by auto
  with Cons show ?case by simp
qed

lemma conflicting_items_of_fail:
  "\<exists>c\<in>set cs. \<not> sublist '') '' c \<Longrightarrow>
   conflicting_items_of mm cs = Inl (ValueError ''substring not found'')"
proof (induction cs)
  case Nil
  then show ?case by simp
next
  case (Cons c cs)
  show ?case
  proof (cases "sublist '') '' c")
    case True
    then obtain p where p: "strip_action_prefix c = Inr p"
      using strip_occurrence by blast
    from True Cons.prems have "\<exists>c\<in>set cs. \<not> sublist '') '' c" by auto
    from Cons.IH [OF this] p show ?thesis by simp
  next
    case False
    then show ?thesis by (simp add: strip_no_occurrence)
  qed
qed

lemma conflicting_items_ok:
  assumes "\<forall>l\<in>set conflicts \<union> set modified. sublist '') '' l"
  shows "conflicting_items conflicts modified =
           Inr (filter (\<lambda>c. strip_action_prefix c \<notin> strip_action_prefix ` set modified) conflicts)"
proof -
  from assms have m: "\<forall>m\<in>set modified. sublist '') '' m"
    and c: "\<forall>c\<in>set conflicts. sublist '') '' c" by auto
  from modmap_from_ok [OF m, of Map.empty] obtain mm where
    mm: "modmap_from Map.empty modified = Inr mm"
    and dom: "\<forall>k. (mm k = None) = (Inr k \<notin> strip_action_prefix ` set modified)"
    by auto
  have "filter (\<lambda>c. \<exists>k. strip_action_prefix c = Inr k \<and> mm k = None) conflicts =
        filter (\<lambda>c. strip_action_prefix c \<notin> strip_action_prefix ` set modified) conflicts"
  proof (rule filter_cong [OF refl])
    fix x assume "x \<in> set conflicts"
    with c obtain p where "strip_action_prefix x = Inr p"
      using strip_occurrence [of x] by auto
    with dom show "(\<exists>k. strip_action_prefix x = Inr k \<and> mm k = None) =
                   (strip_action_prefix x \<notin> strip_action_prefix ` set modified)"
      by simp
  qed
  with mm conflicting_items_of_ok [OF c, of mm] show ?thesis
    by (simp add: conflicting_items_def)
qed

lemma conflicting_items_fail:
  assumes "\<exists>l\<in>set conflicts \<union> set modified. \<not> sublist '') '' l"
  shows "conflicting_items conflicts modified = Inl (ValueError ''substring not found'')"
proof (cases "\<exists>m\<in>set modified. \<not> sublist '') '' m")
  case True
  then show ?thesis by (simp add: conflicting_items_def modmap_from_fail)
next
  case False
  then have "\<forall>m\<in>set modified. sublist '') '' m" by simp
  from modmap_from_ok [OF this, of Map.empty] obtain mm where
    "modmap_from Map.empty modified = Inr mm" by blast
  moreover from False assms have "\<exists>c\<in>set conflicts. \<not> sublist '') '' c" by auto
  ultimately show ?thesis by (simp add: conflicting_items_def conflicting_items_of_fail)
qed

subsection \<open>Events, the logger and the invocation of the tool\<close>

lemma execs_append: "execs (xs @ ys) = execs xs @ execs ys"
  by (induction xs rule: execs.induct) simp_all

lemma writes_append: "writes (xs @ ys) = writes xs @ writes ys"
  by (induction xs rule: writes.induct) simp_all


lemma new_events_append: "events w' = events w @ new \<Longrightarrow> new_events w w' = new"
  by (simp add: new_events_def)

lemma percent_format_no_args: "percent_format s [] = s"
  by (induction s) simp_all

lemma not_dir_message:
  "percent_format ''Path `%s` is not a directory'' [ArgStr p] =
     ''Path `'' @ p @ ''` is not a directory''"
  by simp

lemma handlers_emit_dirs [simp]:
  "is_dir (handlers_emit hs line f) = is_dir f"
  "writable (handlers_emit hs line f) = writable f"
  by (induction hs arbitrary: f) (simp_all add: handlers_emit_def append_file_def)

lemma handlers_emit_files:
  "p \<notin> set hs \<Longrightarrow> files (handlers_emit hs line f) p = files f p"
  by (induction hs arbitrary: f) (simp_all add: handlers_emit_def append_file_def)

lemma handlers_emit_none [simp]: "handlers_emit [] line f = f"
  by (simp add: handlers_emit_def)

lemma log_record_world [simp]:
  "events (log_record lv fmt args w) = events w @ [Log lv fmt args]"
  "handlers (log_record lv fmt args w) = handlers w"
  "is_dir (filesys (log_record lv fmt args w)) = is_dir (filesys w)"
  "writable (filesys (log_record lv fmt args w)) = writable (filesys w)"
  by (simp_all add: log_record_def emit_def)

lemma log_record_files:
  "p \<notin> set (handlers w) \<Longrightarrow> files (filesys (log_record lv fmt args w)) p = files (filesys w) p"
  by (simp add: log_record_def emit_def handlers_emit_files)


lemma seen_by_tool_dirs [simp]:
  "is_dir (seen_by_tool w cmd) = is_dir (filesys w)"
  "writable (seen_by_tool w cmd) = writable (filesys w)"
  by (simp_all add: seen_by_tool_def)

lemma seen_by_tool_files:
  "p \<notin> set (handlers w) \<Longrightarrow> files (seen_by_tool w cmd) p = files (filesys w) p"
  by (simp add: seen_by_tool_def log_record_files)


lemma run_rsync_unfold:
  "run_rsync rsync args src dest dry_run w =
     (if \<not> is_dir (filesys w) src then
        (Inl (ValueError (''Path `'' @ src @ ''` is not a directory'')),
         log_record CRITICAL ''Path `%s` is not a directory'' [ArgStr src] w)
      else if \<not> is_dir (filesys w) dest then
        (Inl (ValueError (''Path `'' @ dest @ ''` is not a directory'')),
         log_record CRITICAL ''Path `%s` is not a directory'' [ArgStr dest] w)
      else
        (case rsync (expected_cmd args src dest dry_run)
                (seen_by_tool w (expected_cmd args src dest dry_run)) of
           (rc, out, f) \<Rightarrow>
             if rc \<noteq> 0
             then (Inl (CalledProcessError rc (expected_cmd args src dest dry_run)),
                   \<lparr>filesys = f, handlers = handlers w, events = events w @
                      [Log DEBUG ''Running rsync: %s''
                         [ArgStr (str_join '' '' (expected_cmd args src dest dry_run))],
                       Exec (expected_cmd args src dest dry_run) rc]\<rparr>)
             else (Inr out,
                   \<lparr>filesys = (if out \<noteq> [] then handlers_emit (handlers w) (out @ [CHR 0x0A]) f
                                else f),
                    handlers = handlers w, events = events w @
                      [Log DEBUG ''Running rsync: %s''
                         [ArgStr (str_join '' '' (expected_cmd args src dest dry_run))],
                       Exec (expected_cmd args src dest dry_run) rc] @
                      (if out \<noteq> [] then [Log DEBUG out []] else [])\<rparr>)))"
  unfolding run_rsync_def sanitize_path_def log_and_abort_def not_dir_message seen_by_tool_def
  by (simp add: expected_cmd_def RSYNC_FLAGS_def emit_def log_record_def Let_def
      percent_format_no_args split: prod.splits)

lemma run_rsync_cases [consumes 1, case_names not_dir failed ok]:
  assumes "run_rsync rsync args src dest dry_run w = (r, w')"
  obtains
    (not_dir) p where "p = src \<or> p = dest" and "\<not> is_dir (filesys w) p"
      and "r = Inl (ValueError (''Path `'' @ p @ ''` is not a directory''))"
      and "w' = log_record CRITICAL ''Path `%s` is not a directory'' [ArgStr p] w"
      and "events w' = events w @ [Log CRITICAL ''Path `%s` is not a directory'' [ArgStr p]]"
  | (failed) rc out f where "is_dir (filesys w) src" and "is_dir (filesys w) dest"
      and "rsync (expected_cmd args src dest dry_run)
             (seen_by_tool w (expected_cmd args src dest dry_run)) = (rc, out, f)"
      and "rc \<noteq> 0"
      and "r = Inl (CalledProcessError rc (expected_cmd args src dest dry_run))"
      and "filesys w' = f"
      and "events w' = events w @
             [Log DEBUG ''Running rsync: %s''
                [ArgStr (str_join '' '' (expected_cmd args src dest dry_run))],
              Exec (expected_cmd args src dest dry_run) rc]"
      and "handlers w' = handlers w"
  | (ok) out f where "is_dir (filesys w) src" and "is_dir (filesys w) dest"
      and "rsync (expected_cmd args src dest dry_run)
             (seen_by_tool w (expected_cmd args src dest dry_run)) = (0, out, f)"
      and "r = Inr out"
      and "filesys w' = (if out \<noteq> [] then handlers_emit (handlers w) (out @ [CHR 0x0A]) f else f)"
      and "events w' = events w @
             [Log DEBUG ''Running rsync: %s''
                [ArgStr (str_join '' '' (expected_cmd args src dest dry_run))],
              Exec (expected_cmd args src dest dry_run) 0] @
             (if out \<noteq> [] then [Log DEBUG out []] else [])"
      and "handlers w' = handlers w"
proof -
  let ?cmd = "expected_cmd args src dest dry_run"
  let ?fmt = "''Path `%s` is not a directory''"
  obtain rc out f where res: "rsync ?cmd (seen_by_tool w ?cmd) = (rc, out, f)"
    by (cases "rsync ?cmd (seen_by_tool w ?cmd)") auto
  consider (a) "\<not> is_dir (filesys w) src"
    | (b) "is_dir (filesys w) src" "\<not> is_dir (filesys w) dest"
    | (c) "is_dir (filesys w) src" "is_dir (filesys w) dest" "rc \<noteq> 0"
    | (d) "is_dir (filesys w) src" "is_dir (filesys w) dest" "rc = 0"
    by blast
  then show thesis
  proof cases
    case a
    with assms have "r = Inl (ValueError (''Path `'' @ src @ ''` is not a directory''))"
      and "w' = log_record CRITICAL ?fmt [ArgStr src] w"
      by (simp_all add: run_rsync_unfold)
    with a show thesis by (intro not_dir [of src]) simp_all
  next
    case b
    with assms have "r = Inl (ValueError (''Path `'' @ dest @ ''` is not a directory''))"
      and "w' = log_record CRITICAL ?fmt [ArgStr dest] w"
      by (simp_all add: run_rsync_unfold)
    with b show thesis by (intro not_dir [of dest]) simp_all
  next
    case c
    from assms c have "r = Inl (CalledProcessError rc ?cmd)"
      and "w' = \<lparr>filesys = f, handlers = handlers w, events = events w @
             [Log DEBUG ''Running rsync: %s'' [ArgStr (str_join '' '' ?cmd)], Exec ?cmd rc]\<rparr>"
      by (simp_all add: run_rsync_unfold res)
    with c res show thesis by (intro failed [of rc out f]) simp_all
  next
    case d
    from assms d have r: "r = Inr out"
      and w': "w' = \<lparr>filesys = (if out \<noteq> [] then handlers_emit (handlers w) (out @ [CHR 0x0A]) f
                                else f),
             handlers = handlers w, events = events w @
             [Log DEBUG ''Running rsync: %s'' [ArgStr (str_join '' '' ?cmd)], Exec ?cmd 0] @
             (if out \<noteq> [] then [Log DEBUG out []] else [])\<rparr>"
      by (simp_all add: run_rsync_unfold res)
    from res d have res0: "rsync ?cmd (seen_by_tool w ?cmd) = (0, out, f)" by simp
    from w' have "filesys w' = (if out \<noteq> [] then handlers_emit (handlers w) (out @ [CHR 0x0A]) f
                                else f)"
      and "events w' = events w @
             [Log DEBUG ''Running rsync: %s'' [ArgStr (str_join '' '' ?cmd)], Exec ?cmd 0] @
             (if out \<noteq> [] then [Log DEBUG out []] else [])"
      and "handlers w' = handlers w"
      by simp_all
    with d r res0 show thesis by (intro ok [of out f]) simp_all
  qed
qed

subsection \<open>Writing the list files\<close>

lemma open_write_unfold:
  "open_write p c w =
     (if \<not> writable (filesys w) p then (Inl (OSError p), w)
      else (Inr (), \<lparr>filesys = (filesys w)\<lparr>files := (files (filesys w))(p \<mapsto> c)\<rparr>,
                     handlers = handlers w, events = events w @ [Write p c]\<rparr>))"
  by (simp add: open_write_def emit_def)

lemma check_modified_loop_unfold:
  "check_modified_loop [src, dest] modified_file c w =
     (if \<not> writable (filesys w) (modified_path modified_file src)
      then (Inl (OSError (modified_path modified_file src)), w)
      else if \<not> writable (filesys w) (modified_path modified_file dest)
      then (Inl (OSError (modified_path modified_file dest)),
            \<lparr>filesys = (filesys w)\<lparr>files := (files (filesys w))
                          (modified_path modified_file src \<mapsto> c)\<rparr>,
             handlers = handlers w, events = events w @ [Write (modified_path modified_file src) c]\<rparr>)
      else (Inr (),
            \<lparr>filesys = (filesys w)\<lparr>files := (files (filesys w))
                          (modified_path modified_file src \<mapsto> c,
                           modified_path modified_file dest \<mapsto> c)\<rparr>,
             handlers = handlers w, events = events w @ [Write (modified_path modified_file src) c,
                                  Write (modified_path modified_file dest) c]\<rparr>))"
  by (simp add: open_write_unfold modified_path_def Let_def)

lemma verify_integrity_loop_unfold:
  "verify_integrity_loop [src, dest] conflict_file c w =
     (if \<not> writable (filesys w) (conflicts_path conflict_file src)
      then (Inl (OSError (conflicts_path conflict_file src)), w)
      else if \<not> writable (filesys w) (conflicts_path conflict_file dest)
      then (Inl (OSError (conflicts_path conflict_file dest)),
            \<lparr>filesys = (filesys w)\<lparr>files := (files (filesys w))
                          (conflicts_path conflict_file src \<mapsto> c)\<rparr>,
             handlers = handlers w, events = events w @ [Write (conflicts_path conflict_file src) c]\<rparr>)
      else (Inr (),
            \<lparr>filesys = (filesys w)\<lparr>files := (files (filesys w))
                          (conflicts_path conflict_file src \<mapsto> c,
                           conflicts_path conflict_file dest \<mapsto> c)\<rparr>,
             handlers = handlers w, events = events w @ [Write (conflicts_path conflict_file src) c,
                                  Write (conflicts_path conflict_file dest) c]\<rparr>))"
  by (simp add: open_write_unfold conflicts_path_def Let_def)

lemma check_modified_loop_cases [consumes 1, case_names first_fails second_fails ok]:
  assumes "check_modified_loop [src, dest] modified_file c w = (r, w')"
  obtains
    (first_fails) "\<not> writable (filesys w) (modified_path modified_file src)"
      and "r = Inl (OSError (modified_path modified_file src))" and "w' = w"
  | (second_fails) "\<not> writable (filesys w) (modified_path modified_file dest)"
      and "r = Inl (OSError (modified_path modified_file dest))"
      and "events w' = events w @ [Write (modified_path modified_file src) c]"
      and "filesys w' = (filesys w)\<lparr>files := (files (filesys w))(modified_path modified_file src \<mapsto> c)\<rparr>"
      and "handlers w' = handlers w"
  | (ok) "writable (filesys w) (modified_path modified_file src)"
      and "writable (filesys w) (modified_path modified_file dest)"
      and "r = Inr ()"
      and "events w' = events w @ [Write (modified_path modified_file src) c,
                                   Write (modified_path modified_file dest) c]"
      and "filesys w' = (filesys w)\<lparr>files := (files (filesys w))
             (modified_path modified_file src \<mapsto> c, modified_path modified_file dest \<mapsto> c)\<rparr>"
      and "handlers w' = handlers w"
proof -
  let ?p1 = "modified_path modified_file src" and ?p2 = "modified_path modified_file dest"
  consider (a) "\<not> writable (filesys w) ?p1"
    | (b) "writable (filesys w) ?p1" "\<not> writable (filesys w) ?p2"
    | (c) "writable (filesys w) ?p1" "writable (filesys w) ?p2"
    by blast
  then show thesis
  proof cases
    case a
    from assms a have "r = Inl (OSError ?p1)" and "w' = w"
      by (simp_all add: check_modified_loop_unfold del: check_modified_loop.simps)
    with a show thesis by (intro first_fails) simp_all
  next
    case b
    from assms b have "r = Inl (OSError ?p2)"
      and "w' = \<lparr>filesys = (filesys w)\<lparr>files := (files (filesys w))(?p1 \<mapsto> c)\<rparr>,
                   handlers = handlers w, events = events w @ [Write ?p1 c]\<rparr>"
      by (simp_all add: check_modified_loop_unfold del: check_modified_loop.simps)
    with b show thesis by (intro second_fails) simp_all
  next
    case c
    from assms c have "r = Inr ()"
      and "w' = \<lparr>filesys = (filesys w)\<lparr>files := (files (filesys w))(?p1 \<mapsto> c, ?p2 \<mapsto> c)\<rparr>,
                   handlers = handlers w, events = events w @ [Write ?p1 c, Write ?p2 c]\<rparr>"
      by (simp_all add: check_modified_loop_unfold del: check_modified_loop.simps)
    with c show thesis by (intro ok) simp_all
  qed
qed

lemma verify_integrity_loop_cases [consumes 1, case_names first_fails second_fails ok]:
  assumes "verify_integrity_loop [src, dest] conflict_file c w = (r, w')"
  obtains
    (first_fails) "\<not> writable (filesys w) (conflicts_path conflict_file src)"
      and "r = Inl (OSError (conflicts_path conflict_file src))" and "w' = w"
  | (second_fails) "\<not> writable (filesys w) (conflicts_path conflict_file dest)"
      and "r = Inl (OSError (conflicts_path conflict_file dest))"
      and "events w' = events w @ [Write (conflicts_path conflict_file src) c]"
      and "filesys w' = (filesys w)\<lparr>files := (files (filesys w))(conflicts_path conflict_file src \<mapsto> c)\<rparr>"
      and "handlers w' = handlers w"
  | (ok) "writable (filesys w) (conflicts_path conflict_file src)"
      and "writable (filesys w) (conflicts_path conflict_file dest)"
      and "r = Inr ()"
      and "events w' = events w @ [Write (conflicts_path conflict_file src) c,
                                   Write (conflicts_path conflict_file dest) c]"
      and "filesys w' = (filesys w)\<lparr>files := (files (filesys w))
             (conflicts_path conflict_file src \<mapsto> c, conflicts_path conflict_file dest \<mapsto> c)\<rparr>"
      and "handlers w' = handlers w"
proof -
  let ?p1 = "conflicts_path conflict_file src" and ?p2 = "conflicts_path conflict_file dest"
  consider (a) "\<not> writable (filesys w) ?p1"
    | (b) "writable (filesys w) ?p1" "\<not> writable (filesys w) ?p2"
    | (c) "writable (filesys w) ?p1" "writable (filesys w) ?p2"
    by blast
  then show thesis
  proof cases
    case a
    from assms a have "r = Inl (OSError ?p1)" and "w' = w"
      by (simp_all add: verify_integrity_loop_unfold del: verify_integrity_loop.simps)
    with a show thesis by (intro first_fails) simp_all
  next
    case b
    from assms b have "r = Inl (OSError ?p2)"
      and "w' = \<lparr>filesys = (filesys w)\<lparr>files := (files (filesys w))(?p1 \<mapsto> c)\<rparr>,
                   handlers = handlers w, events = events w @ [Write ?p1 c]\<rparr>"
      by (simp_all add: verify_integrity_loop_unfold del: verify_integrity_loop.simps)
    with b show thesis by (intro second_fails) simp_all
  next
    case c
    from assms c have "r = Inr ()"
      and "w' = \<lparr>filesys = (filesys w)\<lparr>files := (files (filesys w))(?p1 \<mapsto> c, ?p2 \<mapsto> c)\<rparr>,
                   handlers = handlers w, events = events w @ [Write ?p1 c, Write ?p2 c]\<rparr>"
      by (simp_all add: verify_integrity_loop_unfold del: verify_integrity_loop.simps)
    with c show thesis by (intro ok) simp_all
  qed
qed

subsection \<open>The outcomes of the modification check and of the integrity check\<close>

lemma check_modified_cases [consumes 1, case_names not_dir failed write_error ok]:
  assumes "check_modified rsync src dest modified_file w = (r, w')"
  obtains
    (not_dir) p where "p = src \<or> p = dest" and "\<not> is_dir (filesys w) p"
      and "r = Inl (ValueError (''Path `'' @ p @ ''` is not a directory''))"
      and "w' = log_record CRITICAL ''Path `%s` is not a directory'' [ArgStr p] w"
      and "events w' = events w @ [Log CRITICAL ''Path `%s` is not a directory'' [ArgStr p]]"
  | (failed) rc out f where "is_dir (filesys w) src" and "is_dir (filesys w) dest"
      and "rsync (expected_cmd [] src dest True)
             (seen_by_tool w (expected_cmd [] src dest True)) = (rc, out, f)"
      and "rc \<noteq> 0"
      and "r = Inl (CalledProcessError rc (expected_cmd [] src dest True))"
      and "filesys w' = f"
      and "events w' = events w @
             [Log DEBUG ''Running rsync: %s''
                [ArgStr (str_join '' '' (expected_cmd [] src dest True))],
              Exec (expected_cmd [] src dest True) rc]"
      and "handlers w' = handlers w"
  | (write_error) out f p ps where "is_dir (filesys w) src" and "is_dir (filesys w) dest"
      and "rsync (expected_cmd [] src dest True)
             (seen_by_tool w (expected_cmd [] src dest True)) = (0, out, f)"
      and "\<not> writable f p" and "r = Inl (OSError p)"
      and "ps = [] \<and> p = modified_path modified_file src \<or>
           ps = [modified_path modified_file src] \<and> p = modified_path modified_file dest"
      and "events w' = events w @
             [Log DEBUG ''Running rsync: %s''
                [ArgStr (str_join '' '' (expected_cmd [] src dest True))],
              Exec (expected_cmd [] src dest True) 0] @
             (if out \<noteq> []
              then [Log DEBUG out [],
                    Log WARNING ''Found %d files that have been modified''
                      [ArgInt (int (length (splitlines out)))]]
              else []) @
             map (\<lambda>q. Write q out) ps"
      and "is_dir (filesys w') = is_dir f" and "writable (filesys w') = writable f"
      and "\<forall>q. q \<notin> set ps \<longrightarrow> q \<notin> set (handlers w) \<longrightarrow> files (filesys w') q = files f q"
      and "handlers w' = handlers w"
  | (ok) out f where "is_dir (filesys w) src" and "is_dir (filesys w) dest"
      and "rsync (expected_cmd [] src dest True)
             (seen_by_tool w (expected_cmd [] src dest True)) = (0, out, f)"
      and "writable f (modified_path modified_file src)"
      and "writable f (modified_path modified_file dest)"
      and "r = Inr (splitlines out)"
      and "is_dir (filesys w') = is_dir f"
      and "events w' = events w @
             [Log DEBUG ''Running rsync: %s''
                [ArgStr (str_join '' '' (expected_cmd [] src dest True))],
              Exec (expected_cmd [] src dest True) 0] @
             (if out \<noteq> []
              then [Log DEBUG out [],
                    Log WARNING ''Found %d files that have been modified''
                      [ArgInt (int (length (splitlines out)))]]
              else []) @
             [Write (modified_path modified_file src) out,
              Write (modified_path modified_file dest) out]"
      and "writable (filesys w') = writable f"
      and "files (filesys w') (modified_path modified_file src) = Some out"
      and "files (filesys w') (modified_path modified_file dest) = Some out"
      and "\<forall>q. q \<notin> set (handlers w) \<longrightarrow> q \<noteq> modified_path modified_file src \<longrightarrow>
             q \<noteq> modified_path modified_file dest \<longrightarrow> files (filesys w') q = files f q"
      and "handlers w' = handlers w"
proof -
  obtain r1 w1 where run: "run_rsync rsync [] src dest True w = (r1, w1)"
    by (cases "run_rsync rsync [] src dest True w") auto
  from run show thesis
  proof (cases rule: run_rsync_cases)
    case (not_dir p)
    with assms run have "r = Inl (ValueError (''Path `'' @ p @ ''` is not a directory''))"
      and "w' = w1"
      by (simp_all add: check_modified_def)
    with not_dir show thesis by (intro that(1) [of p]) simp_all
  next
    case (failed rc out f)
    with assms run have "r = Inl (CalledProcessError rc (expected_cmd [] src dest True))"
      and "w' = w1"
      by (simp_all add: check_modified_def)
    with failed show thesis by (intro that(2) [of rc out f]) simp_all
  next
    case (ok out f)
    define w2 where "w2 = (if out \<noteq> []
        then log_record WARNING ''Found %d files that have been modified''
               [ArgInt (int (length (splitlines out)))] w1
        else w1)"
    obtain r3 w3 where loop: "check_modified_loop [src, dest] modified_file out w2 = (r3, w3)"
      by (cases "check_modified_loop [src, dest] modified_file out w2") auto
    have hs2: "handlers w2 = handlers w" using ok by (simp add: w2_def)
    have d2: "is_dir (filesys w2) = is_dir f" "writable (filesys w2) = writable f"
      using ok by (simp_all add: w2_def)
    have f2: "files (filesys w2) q = files f q" if "q \<notin> set (handlers w)" for q
      using ok that by (simp add: w2_def log_record_files handlers_emit_files)
    have ev2: "events w2 = events w @
             [Log DEBUG ''Running rsync: %s''
                [ArgStr (str_join '' '' (expected_cmd [] src dest True))],
              Exec (expected_cmd [] src dest True) 0] @
             (if out \<noteq> []
              then [Log DEBUG out [],
                    Log WARNING ''Found %d files that have been modified''
                      [ArgInt (int (length (splitlines out)))]]
              else [])"
      using ok by (simp add: w2_def)
    from assms run ok(4) loop
    have res: "(r, w') = (case r3 of Inl e \<Rightarrow> (Inl e, w3) | Inr u \<Rightarrow> (Inr (splitlines out), w3))"
      by (simp add: check_modified_def w2_def Let_def del: check_modified_loop.simps
          split: sum.splits)
    from loop show thesis
    proof (cases rule: check_modified_loop_cases)
      case first_fails
      with res hs2 d2 f2 ev2 ok(1-3) show thesis
        by (intro that(3) [of out f "modified_path modified_file src" "[]"]) simp_all
    next
      case second_fails
      with res hs2 d2 f2 ev2 ok(1-3) show thesis
        by (intro that(3) [of out f "modified_path modified_file dest"
              "[modified_path modified_file src]"]) simp_all
    next
      case ok': ok
      with res hs2 d2 f2 ev2 ok(1-3) show thesis
        by (intro that(4) [of out f]) simp_all
    qed
  qed
qed

lemma verify_integrity_cases [consumes 1, case_names not_dir failed malformed write_error ok]:
  assumes "verify_integrity rsync src dest modified conflict_file w = (r, w')"
  obtains
    (not_dir) p where "p = src \<or> p = dest" and "\<not> is_dir (filesys w) p"
      and "r = Inl (ValueError (''Path `'' @ p @ ''` is not a directory''))"
      and "w' = log_record CRITICAL ''Path `%s` is not a directory'' [ArgStr p] w"
      and "events w' = events w @ [Log CRITICAL ''Path `%s` is not a directory'' [ArgStr p]]"
  | (failed) rc out f where "is_dir (filesys w) src" and "is_dir (filesys w) dest"
      and "rsync (expected_cmd [''-c''] src dest True)
             (seen_by_tool w (expected_cmd [''-c''] src dest True)) = (rc, out, f)"
      and "rc \<noteq> 0"
      and "r = Inl (CalledProcessError rc (expected_cmd [''-c''] src dest True))"
      and "filesys w' = f"
      and "events w' = events w @
             [Log DEBUG ''Running rsync: %s''
                [ArgStr (str_join '' '' (expected_cmd [''-c''] src dest True))],
              Exec (expected_cmd [''-c''] src dest True) rc]"
      and "handlers w' = handlers w"
  | (malformed) out f e where "is_dir (filesys w) src" and "is_dir (filesys w) dest"
      and "rsync (expected_cmd [''-c''] src dest True)
             (seen_by_tool w (expected_cmd [''-c''] src dest True)) = (0, out, f)"
      and "conflicting_items (splitlines out) modified = Inl e"
      and "r = Inl e"
      and "filesys w' = (if out \<noteq> [] then handlers_emit (handlers w) (out @ [CHR 0x0A]) f else f)"
      and "events w' = events w @
             [Log DEBUG ''Running rsync: %s''
                [ArgStr (str_join '' '' (expected_cmd [''-c''] src dest True))],
              Exec (expected_cmd [''-c''] src dest True) 0] @
             (if out \<noteq> [] then [Log DEBUG out []] else [])"
      and "handlers w' = handlers w"
  | (write_error) out f items p ps where "is_dir (filesys w) src" and "is_dir (filesys w) dest"
      and "rsync (expected_cmd [''-c''] src dest True)
             (seen_by_tool w (expected_cmd [''-c''] src dest True)) = (0, out, f)"
      and "conflicting_items (splitlines out) modified = Inr items"
      and "\<not> writable f p" and "r = Inl (OSError p)"
      and "ps = [] \<and> p = conflicts_path conflict_file src \<or>
           ps = [conflicts_path conflict_file src] \<and> p = conflicts_path conflict_file dest"
      and "events w' = events w @
             [Log DEBUG ''Running rsync: %s''
                [ArgStr (str_join '' '' (expected_cmd [''-c''] src dest True))],
              Exec (expected_cmd [''-c''] src dest True) 0] @
             (if out \<noteq> [] then [Log DEBUG out []] else []) @
             (if items \<noteq> []
              then [Log WARNING ''Found %d files that have bitrot'' [ArgInt (int (length items))]]
              else []) @
             map (\<lambda>q. Write q (str_join [CHR 0x0A] items)) ps"
      and "is_dir (filesys w') = is_dir f" and "writable (filesys w') = writable f"
      and "\<forall>q. q \<notin> set ps \<longrightarrow> q \<notin> set (handlers w) \<longrightarrow> files (filesys w') q = files f q"
      and "handlers w' = handlers w"
  | (ok) out f items where "is_dir (filesys w) src" and "is_dir (filesys w) dest"
      and "rsync (expected_cmd [''-c''] src dest True)
             (seen_by_tool w (expected_cmd [''-c''] src dest True)) = (0, out, f)"
      and "conflicting_items (splitlines out) modified = Inr items"
      and "writable f (conflicts_path conflict_file src)"
      and "writable f (conflicts_path conflict_file dest)"
      and "r = Inr ()"
      and "is_dir (filesys w') = is_dir f"
      and "events w' = events w @
             [Log DEBUG ''Running rsync: %s''
                [ArgStr (str_join '' '' (expected_cmd [''-c''] src dest True))],
              Exec (expected_cmd [''-c''] src dest True) 0] @
             (if out \<noteq> [] then [Log DEBUG out []] else []) @
             (if items \<noteq> []
              then [Log WARNING ''Found %d files that have bitrot'' [ArgInt (int (length items))]]
              else []) @
             [Write (conflicts_path conflict_file src) (str_join [CHR 0x0A] items),
              Write (conflicts_path conflict_file dest) (str_join [CHR 0x0A] items)]"
      and "writable (filesys w') = writable f"
      and "files (filesys w') (conflicts_path conflict_file src) =
             Some (str_join [CHR 0x0A] items)"
      and "files (filesys w') (conflicts_path conflict_file dest) =
             Some (str_join [CHR 0x0A] items)"
      and "\<forall>q. q \<notin> set (handlers w) \<longrightarrow> q \<noteq> conflicts_path conflict_file src \<longrightarrow>
             q \<noteq> conflicts_path conflict_file dest \<longrightarrow> files (filesys w') q = files f q"
      and "handlers w' = handlers w"
proof -
  obtain r1 w1 where run: "run_rsync rsync [''-c''] src dest True w = (r1, w1)"
    by (cases "run_rsync rsync [''-c''] src dest True w") auto
  from run show thesis
  proof (cases rule: run_rsync_cases)
    case (not_dir p)
    with assms run have "r = Inl (ValueError (''Path `'' @ p @ ''` is not a directory''))"
      and "w' = w1"
      by (simp_all add: verify_integrity_def)
    with not_dir show thesis by (intro that(1) [of p]) simp_all
  next
    case (failed rc out f)
    with assms run have "r = Inl (CalledProcessError rc (expected_cmd [''-c''] src dest True))"
      and "w' = w1"
      by (simp_all add: verify_integrity_def)
    with failed show thesis by (intro that(2) [of rc out f]) simp_all
  next
    case (ok out f)
    show thesis
    proof (cases "conflicting_items (splitlines out) modified")
      case (Inl e)
      with assms run ok(4) have "r = Inl e" and "w' = w1"
        by (simp_all add: verify_integrity_def)
      with ok Inl show thesis by (intro that(3) [of out f e]) simp_all
    next
      case (Inr items)
      define w2 where "w2 = (if items \<noteq> []
          then log_record WARNING ''Found %d files that have bitrot''
                 [ArgInt (int (length items))] w1
          else w1)"
      have hs2: "handlers w2 = handlers w" using ok by (simp add: w2_def)
      have d2: "is_dir (filesys w2) = is_dir f" "writable (filesys w2) = writable f"
        using ok by (simp_all add: w2_def)
      have f2: "files (filesys w2) q = files f q" if "q \<notin> set (handlers w)" for q
        using ok that by (simp add: w2_def log_record_files handlers_emit_files)
      have ev2: "events w2 = events w @
             [Log DEBUG ''Running rsync: %s''
                [ArgStr (str_join '' '' (expected_cmd [''-c''] src dest True))],
              Exec (expected_cmd [''-c''] src dest True) 0] @
             (if out \<noteq> [] then [Log DEBUG out []] else []) @
             (if items \<noteq> []
              then [Log WARNING ''Found %d files that have bitrot'' [ArgInt (int (length items))]]
              else [])"
        using ok by (simp add: w2_def)
      from assms run ok(4) Inr
      have loop: "verify_integrity_loop [src, dest] conflict_file (str_join [CHR 0x0A] items) w2 =
                    (r, w')"
        by (simp add: verify_integrity_def w2_def Let_def del: verify_integrity_loop.simps)
      from loop show thesis
      proof (cases rule: verify_integrity_loop_cases)
        case first_fails
        with hs2 d2 f2 ev2 ok(1-3) Inr show thesis
          by (intro that(4) [of out f items "conflicts_path conflict_file src" "[]"]) simp_all
      next
        case second_fails
        with hs2 d2 f2 ev2 ok(1-3) Inr show thesis
          by (intro that(4) [of out f items "conflicts_path conflict_file dest"
                "[conflicts_path conflict_file src]"]) simp_all
      next
        case ok': ok
        with hs2 d2 f2 ev2 ok(1-3) Inr show thesis
          by (intro that(5) [of out f items]) simp_all
      qed
    qed
  qed
qed

subsection \<open>What a call adds to the events, whatever its outcome\<close>

lemma dry_run_in_expected_cmd: "''--dry-run'' \<in> set (expected_cmd args src dest True)"
  by (simp add: expected_cmd_def)

lemma expected_cmd_paths:
  "last (butlast (expected_cmd args src dest dry_run)) = src @ ''/''"
  "last (expected_cmd args src dest dry_run) = dest @ ''/''"
  by (simp_all add: expected_cmd_def butlast_append)

lemma honours_dry_runD:
  "honours_dry_run rsync \<Longrightarrow> rsync (expected_cmd args src dest True) f = (rc, out, f') \<Longrightarrow> f' = f"
  using dry_run_in_expected_cmd [of args src dest]
  by (auto simp: honours_dry_run_def dest!: spec [of _ "expected_cmd args src dest True"]
      dest: spec [of _ f])

lemma conflicting_items_error:
  assumes "conflicting_items conflicts modified = Inl e"
  shows "e = ValueError ''substring not found''"
proof (cases "\<forall>l\<in>set conflicts \<union> set modified. sublist '') '' l")
  case True
  from conflicting_items_ok [OF this] assms show ?thesis by simp
next
  case False
  then have "\<exists>l\<in>set conflicts \<union> set modified. \<not> sublist '') '' l" by simp
  from conflicting_items_fail [OF this] assms show ?thesis by simp
qed

lemma run_rsync_trace:
  assumes "run_rsync rsync args src dest dry_run w = (r, w')"
  shows "\<exists>new. events w' = events w @ new \<and>
           list_all (\<lambda>(c, rc). c = expected_cmd args src dest dry_run) (execs new) \<and>
           failed_execs new = raised_by_tool r \<and>
           (\<forall>rc c. r = Inl (CalledProcessError rc c) \<longrightarrow> new \<noteq> [] \<and> last new = Exec c rc) \<and>
           writes new = []"
  using assms
proof (cases rule: run_rsync_cases)
  case (not_dir p)
  then show ?thesis by (simp add: failed_execs_def raised_by_tool_def)
next
  case (failed rc out f)
  then show ?thesis by (simp add: failed_execs_def raised_by_tool_def)
next
  case (ok out f)
  then show ?thesis by (simp add: failed_execs_def raised_by_tool_def)
qed

lemma check_modified_trace:
  assumes "check_modified rsync src dest modified_file w = (r, w')"
  shows "\<exists>new. events w' = events w @ new \<and>
           list_all (\<lambda>(c, rc). c = expected_cmd [] src dest True) (execs new) \<and>
           failed_execs new = raised_by_tool r \<and>
           (\<forall>rc c. r = Inl (CalledProcessError rc c) \<longrightarrow> new \<noteq> [] \<and> last new = Exec c rc) \<and>
           fst ` set (writes new) \<subseteq>
             {modified_path modified_file src, modified_path modified_file dest}"
  using assms
proof (cases rule: check_modified_cases)
  case (not_dir p)
  then show ?thesis by (simp add: failed_execs_def raised_by_tool_def)
next
  case (failed rc out f)
  then show ?thesis by (simp add: failed_execs_def raised_by_tool_def)
next
  case (write_error out f p ps)
  then show ?thesis
    by (auto simp: failed_execs_def raised_by_tool_def execs_append writes_append)
next
  case (ok out f)
  then show ?thesis
    by (simp add: failed_execs_def raised_by_tool_def execs_append writes_append)
qed

lemma verify_integrity_trace:
  assumes "verify_integrity rsync src dest modified conflict_file w = (r, w')"
  shows "\<exists>new. events w' = events w @ new \<and>
           list_all (\<lambda>(c, rc). c = expected_cmd [''-c''] src dest True) (execs new) \<and>
           failed_execs new = raised_by_tool r \<and>
           (\<forall>rc c. r = Inl (CalledProcessError rc c) \<longrightarrow> new \<noteq> [] \<and> last new = Exec c rc) \<and>
           fst ` set (writes new) \<subseteq>
             {conflicts_path conflict_file src, conflicts_path conflict_file dest}"
  using assms
proof (cases rule: verify_integrity_cases)
  case (not_dir p)
  then show ?thesis by (simp add: failed_execs_def raised_by_tool_def)
next
  case (failed rc out f)
  then show ?thesis by (simp add: failed_execs_def raised_by_tool_def)
next
  case (malformed out f e)
  from malformed(4) have "e = ValueError ''substring not found''"
    by (rule conflicting_items_error)
  with malformed show ?thesis
    by (simp add: failed_execs_def raised_by_tool_def execs_append writes_append)
next
  case (write_error out f items p ps)
  then show ?thesis
    by (auto simp: failed_execs_def raised_by_tool_def execs_append writes_append)
next
  case (ok out f items)
  then show ?thesis
    by (simp add: failed_execs_def raised_by_tool_def execs_append writes_append)
qed

subsection \<open>The outcomes of the whole run\<close>

lemma after_setup_world [simp]:
  "events (after_setup logfile w) =
     events w @ (case logfile of None \<Rightarrow> [] | Some l \<Rightarrow> [AddHandler l])"
  "handlers (after_setup logfile w) =
     handlers w @ (case logfile of None \<Rightarrow> [] | Some l \<Rightarrow> [l])"
  "is_dir (filesys (after_setup logfile w)) = is_dir (filesys w)"
  "writable (filesys (after_setup logfile w)) = writable (filesys w)"
  by (simp_all add: after_setup_def emit_def append_file_def split: option.splits)

lemma after_setup_files:
  "p \<notin> set_option logfile \<Longrightarrow> files (filesys (after_setup logfile w)) p = files (filesys w) p"
  by (auto simp: after_setup_def emit_def append_file_def split: option.splits)

lemma after_setup_None [simp]: "after_setup None w = w"
  by (simp add: after_setup_def)

lemma main_cases
  [consumes 1, case_names log_error check_error verified propagate_error propagated]:
  assumes "main rsync src dest dry_run force logfile conflict_file modified_file v w = (r, w')"
  obtains
    (log_error) l where "logfile = Some l" and "\<not> writable (filesys w) l"
      and "r = Inl (OSError l)" and "w' = w"
  | (check_error) w0 e where "v" and "w0 = after_setup logfile w"
      and "events w0 = events w @ (case logfile of None \<Rightarrow> [] | Some l \<Rightarrow> [AddHandler l])"
      and "check_modified rsync src dest modified_file w0 = (Inl e, w')" and "r = Inl e"
  | (verified) w0 modified w1 r2 where "v" and "w0 = after_setup logfile w"
      and "events w0 = events w @ (case logfile of None \<Rightarrow> [] | Some l \<Rightarrow> [AddHandler l])"
      and "check_modified rsync src dest modified_file w0 = (Inr modified, w1)"
      and "verify_integrity rsync src dest modified conflict_file w1 = (r2, w')"
      and "r = (case r2 of Inl e \<Rightarrow> Inl e | Inr u \<Rightarrow> Inr 0)"
  | (propagate_error) w0 e where "\<not> v" and "w0 = after_setup logfile w"
      and "events w0 = events w @ (case logfile of None \<Rightarrow> [] | Some l \<Rightarrow> [AddHandler l])"
      and "run_rsync rsync (if force then [] else [''--ignore-existing'']) src dest dry_run w0 =
             (Inl e, w')"
      and "r = Inl e"
  | (propagated) w0 out w1 r2 where "\<not> v" and "w0 = after_setup logfile w"
      and "events w0 = events w @ (case logfile of None \<Rightarrow> [] | Some l \<Rightarrow> [AddHandler l])"
      and "run_rsync rsync (if force then [] else [''--ignore-existing'']) src dest dry_run w0 =
             (Inr out, w1)"
      and "check_modified rsync src dest modified_file w1 = (r2, w')"
      and "r = (case r2 of Inl e \<Rightarrow> Inl e | Inr ls \<Rightarrow> Inr 0)"
proof (cases "\<exists>l. logfile = Some l \<and> \<not> writable (filesys w) l")
  case True
  then obtain l where l: "logfile = Some l" "\<not> writable (filesys w) l" by blast
  with assms have "r = Inl (OSError l)" and "w' = w" by (simp_all add: main_def)
  with l show thesis by (rule that(1))
next
  case False
  define w0 where "w0 = after_setup logfile w"
  have fs0: "w0 = after_setup logfile w"
    and ev0: "events w0 = events w @ (case logfile of None \<Rightarrow> [] | Some l \<Rightarrow> [AddHandler l])"
    by (simp_all add: w0_def after_setup_def emit_def split: option.splits)
  from False have start: "(case logfile of
              None \<Rightarrow> (Inr (), w)
            | Some l \<Rightarrow> (if \<not> writable (filesys w) l then (Inl (OSError l), w)
                         else (Inr (),
                               emit (AddHandler l)
                                 (w\<lparr>filesys := append_file l [] (filesys w),
                                    handlers := handlers w @ [l]\<rparr>)))) = (Inr (), w0)"
    by (auto simp: w0_def after_setup_def split: option.splits)
  show thesis
  proof (cases v)
    case True
    obtain r1 w1 where cm: "check_modified rsync src dest modified_file w0 = (r1, w1)"
      by (cases "check_modified rsync src dest modified_file w0") auto
    show thesis
    proof (cases r1)
      case (Inl e)
      with assms True cm have "r = Inl e" and "w' = w1"
        by (simp_all add: main_def start)
      with True fs0 ev0 cm Inl show thesis by (intro that(2) [of w0 e]) simp_all
    next
      case (Inr modified)
      obtain r2 w2 where vi: "verify_integrity rsync src dest modified conflict_file w1 = (r2, w2)"
        by (cases "verify_integrity rsync src dest modified conflict_file w1") auto
      from assms True cm Inr vi
      have "r = (case r2 of Inl e \<Rightarrow> Inl e | Inr u \<Rightarrow> Inr 0)" and "w' = w2"
        by (simp_all add: main_def start split: sum.splits)
      with True fs0 ev0 cm Inr vi show thesis
        by (intro that(3) [of w0 modified w1 r2]) simp_all
    qed
  next
    case False
    let ?args = "if force then [] else [''--ignore-existing'']"
    obtain r1 w1 where rr: "run_rsync rsync ?args src dest dry_run w0 = (r1, w1)"
      by (cases "run_rsync rsync ?args src dest dry_run w0") auto
    show thesis
    proof (cases r1)
      case (Inl e)
      with assms False rr have "r = Inl e" and "w' = w1"
        by (simp_all add: main_def start sync_new_files_def update_all_files_def
            split: if_splits)
      with False fs0 ev0 rr Inl show thesis by (intro that(4) [of w0 e]) simp_all
    next
      case (Inr out)
      obtain r2 w2 where cm: "check_modified rsync src dest modified_file w1 = (r2, w2)"
        by (cases "check_modified rsync src dest modified_file w1") auto
      from assms False rr Inr cm
      have "r = (case r2 of Inl e \<Rightarrow> Inl e | Inr ls \<Rightarrow> Inr 0)" and "w' = w2"
        by (simp_all add: main_def start sync_new_files_def update_all_files_def
            split: if_splits sum.splits)
      with False fs0 ev0 rr Inr cm show thesis
        by (intro that(5) [of w0 out w1 r2]) simp_all
    qed
  qed
qed

lemma failed_execs_append: "failed_execs (xs @ ys) = failed_execs xs @ failed_execs ys"
  by (simp add: failed_execs_def execs_append)

lemma handler_events:
  "execs (case logfile of None \<Rightarrow> [] | Some l \<Rightarrow> [AddHandler l]) = []"
  "writes (case logfile of None \<Rightarrow> [] | Some l \<Rightarrow> [AddHandler l]) = []"
  "failed_execs (case logfile of None \<Rightarrow> [] | Some l \<Rightarrow> [AddHandler l]) = []"
  by (simp_all add: failed_execs_def split: option.splits)

lemma raised_by_tool_map:
  "raised_by_tool (case r2 of Inl e \<Rightarrow> Inl e | Inr u \<Rightarrow> Inr x) = raised_by_tool r2"
  by (simp add: raised_by_tool_def split: sum.splits)

lemma raised_by_tool_Inr: "raised_by_tool (Inr x) = []"
  by (simp add: raised_by_tool_def)

lemma list_all_cmd_weaken:
  "list_all (\<lambda>(c, rc). c = a) xs \<Longrightarrow> a \<in> S \<Longrightarrow> list_all (\<lambda>(c, rc). c \<in> S) xs"
  by (induction xs) auto

lemma main_trace:
  assumes "main rsync src dest dry_run force logfile conflict_file modified_file v w = (r, w')"
  shows "\<exists>new. events w' = events w @ new \<and>
           list_all (\<lambda>(c, rc). c \<in>
               (if v then {expected_cmd [] src dest True, expected_cmd [''-c''] src dest True}
                else {expected_cmd (if force then [] else [''--ignore-existing'']) src dest dry_run,
                      expected_cmd [] src dest True}))
             (execs new) \<and>
           failed_execs new = raised_by_tool r \<and>
           (\<forall>rc c. r = Inl (CalledProcessError rc c) \<longrightarrow> new \<noteq> [] \<and> last new = Exec c rc) \<and>
           fst ` set (writes new) \<subseteq>
             {modified_path modified_file src, modified_path modified_file dest} \<union>
             (if v then {conflicts_path conflict_file src, conflicts_path conflict_file dest}
              else {})"
  using assms
proof (cases rule: main_cases)
  case (log_error l)
  then show ?thesis by (simp add: failed_execs_def raised_by_tool_def)
next
  case (check_error w0 e)
  from check_modified_trace [OF check_error(4)] obtain n1 where
    n1: "events w' = events w0 @ n1"
      "list_all (\<lambda>(c, rc). c = expected_cmd [] src dest True) (execs n1)"
      "failed_execs n1 = raised_by_tool (Inl e :: error + string list)"
      "\<forall>rc c. (Inl e :: error + string list) = Inl (CalledProcessError rc c) \<longrightarrow>
         n1 \<noteq> [] \<and> last n1 = Exec c rc"
      "fst ` set (writes n1) \<subseteq>
         {modified_path modified_file src, modified_path modified_file dest}"
    by blast
  let ?new = "(case logfile of None \<Rightarrow> [] | Some l \<Rightarrow> [AddHandler l]) @ n1"
  have "events w' = events w @ ?new" using check_error(3) n1(1) by simp
  moreover have "list_all (\<lambda>(c, rc). c \<in>
      {expected_cmd [] src dest True, expected_cmd [''-c''] src dest True}) (execs ?new)"
    using list_all_cmd_weaken [OF n1(2), of "{expected_cmd [] src dest True, expected_cmd [''-c''] src dest True}"]
    by (simp add: execs_append handler_events)
  moreover have "failed_execs ?new = raised_by_tool r"
    using n1(3) check_error(5) by (simp add: failed_execs_append handler_events raised_by_tool_def)
  moreover have "\<forall>rc c. r = Inl (CalledProcessError rc c) \<longrightarrow> ?new \<noteq> [] \<and> last ?new = Exec c rc"
    using n1(4) check_error(5) by auto
  moreover have "fst ` set (writes ?new) \<subseteq>
      {modified_path modified_file src, modified_path modified_file dest} \<union>
      {conflicts_path conflict_file src, conflicts_path conflict_file dest}"
    using n1(5) by (auto simp: writes_append handler_events)
  ultimately show ?thesis using check_error(1) by (intro exI [of _ ?new]) simp
next
  case (verified w0 modified w1 r2)
  from check_modified_trace [OF verified(4)] obtain n1 where
    n1: "events w1 = events w0 @ n1"
      "list_all (\<lambda>(c, rc). c = expected_cmd [] src dest True) (execs n1)"
      "failed_execs n1 = raised_by_tool (Inr modified :: error + string list)"
      "fst ` set (writes n1) \<subseteq>
         {modified_path modified_file src, modified_path modified_file dest}"
    by blast
  from verify_integrity_trace [OF verified(5)] obtain n2 where
    n2: "events w' = events w1 @ n2"
      "list_all (\<lambda>(c, rc). c = expected_cmd [''-c''] src dest True) (execs n2)"
      "failed_execs n2 = raised_by_tool r2"
      "\<forall>rc c. r2 = Inl (CalledProcessError rc c) \<longrightarrow> n2 \<noteq> [] \<and> last n2 = Exec c rc"
      "fst ` set (writes n2) \<subseteq>
         {conflicts_path conflict_file src, conflicts_path conflict_file dest}"
    by blast
  let ?new = "(case logfile of None \<Rightarrow> [] | Some l \<Rightarrow> [AddHandler l]) @ n1 @ n2"
  have "events w' = events w @ ?new" using verified(3) n1(1) n2(1) by simp
  moreover have "list_all (\<lambda>(c, rc). c \<in>
      {expected_cmd [] src dest True, expected_cmd [''-c''] src dest True}) (execs ?new)"
    using list_all_cmd_weaken [OF n1(2), of "{expected_cmd [] src dest True, expected_cmd [''-c''] src dest True}"]
      list_all_cmd_weaken [OF n2(2), of "{expected_cmd [] src dest True, expected_cmd [''-c''] src dest True}"]
    by (simp add: execs_append handler_events)
  moreover have "failed_execs ?new = raised_by_tool r"
    using n1(3) n2(3) verified(6)
    by (simp add: failed_execs_append handler_events raised_by_tool_map raised_by_tool_Inr)
  moreover have "\<forall>rc c. r = Inl (CalledProcessError rc c) \<longrightarrow> ?new \<noteq> [] \<and> last ?new = Exec c rc"
    using n2(4) verified(6) by (auto split: sum.splits)
  moreover have "fst ` set (writes ?new) \<subseteq>
      {modified_path modified_file src, modified_path modified_file dest} \<union>
      {conflicts_path conflict_file src, conflicts_path conflict_file dest}"
    using n1(4) n2(5) by (auto simp: writes_append handler_events)
  ultimately show ?thesis using verified(1) by (intro exI [of _ ?new]) simp
next
  case (propagate_error w0 e)
  let ?args = "if force then [] else [''--ignore-existing'']"
  from run_rsync_trace [OF propagate_error(4)] obtain n1 where
    n1: "events w' = events w0 @ n1"
      "list_all (\<lambda>(c, rc). c = expected_cmd ?args src dest dry_run) (execs n1)"
      "failed_execs n1 = raised_by_tool (Inl e :: error + string)"
      "\<forall>rc c. (Inl e :: error + string) = Inl (CalledProcessError rc c) \<longrightarrow>
         n1 \<noteq> [] \<and> last n1 = Exec c rc"
      "writes n1 = []"
    by blast
  let ?new = "(case logfile of None \<Rightarrow> [] | Some l \<Rightarrow> [AddHandler l]) @ n1"
  have "events w' = events w @ ?new" using propagate_error(3) n1(1) by simp
  moreover have "list_all (\<lambda>(c, rc). c \<in>
      {expected_cmd ?args src dest dry_run, expected_cmd [] src dest True}) (execs ?new)"
    using list_all_cmd_weaken [OF n1(2), of "{expected_cmd ?args src dest dry_run, expected_cmd [] src dest True}"]
    by (simp add: execs_append handler_events)
  moreover have "failed_execs ?new = raised_by_tool r"
    using n1(3) propagate_error(5)
    by (simp add: failed_execs_append handler_events raised_by_tool_def)
  moreover have "\<forall>rc c. r = Inl (CalledProcessError rc c) \<longrightarrow> ?new \<noteq> [] \<and> last ?new = Exec c rc"
    using n1(4) propagate_error(5) by auto
  moreover have "fst ` set (writes ?new) \<subseteq>
      {modified_path modified_file src, modified_path modified_file dest}"
    using n1(5) by (simp add: writes_append handler_events)
  ultimately show ?thesis using propagate_error(1) by (intro exI [of _ ?new]) simp
next
  case (propagated w0 out w1 r2)
  let ?args = "if force then [] else [''--ignore-existing'']"
  from run_rsync_trace [OF propagated(4)] obtain n1 where
    n1: "events w1 = events w0 @ n1"
      "list_all (\<lambda>(c, rc). c = expected_cmd ?args src dest dry_run) (execs n1)"
      "failed_execs n1 = raised_by_tool (Inr out :: error + string)"
      "writes n1 = []"
    by blast
  from check_modified_trace [OF propagated(5)] obtain n2 where
    n2: "events w' = events w1 @ n2"
      "list_all (\<lambda>(c, rc). c = expected_cmd [] src dest True) (execs n2)"
      "failed_execs n2 = raised_by_tool r2"
      "\<forall>rc c. r2 = Inl (CalledProcessError rc c) \<longrightarrow> n2 \<noteq> [] \<and> last n2 = Exec c rc"
      "fst ` set (writes n2) \<subseteq>
         {modified_path modified_file src, modified_path modified_file dest}"
    by blast
  let ?new = "(case logfile of None \<Rightarrow> [] | Some l \<Rightarrow> [AddHandler l]) @ n1 @ n2"
  have "events w' = events w @ ?new" using propagated(3) n1(1) n2(1) by simp
  moreover have "list_all (\<lambda>(c, rc). c \<in>
      {expected_cmd ?args src dest dry_run, expected_cmd [] src dest True}) (execs ?new)"
    using list_all_cmd_weaken [OF n1(2), of "{expected_cmd ?args src dest dry_run, expected_cmd [] src dest True}"]
      list_all_cmd_weaken [OF n2(2), of "{expected_cmd ?args src dest dry_run, expected_cmd [] src dest True}"]
    by (simp add: execs_append handler_events)
  moreover have "failed_execs ?new = raised_by_tool r"
    using n1(3) n2(3) propagated(6)
    by (simp add: failed_execs_append handler_events raised_by_tool_map raised_by_tool_Inr)
  moreover have "\<forall>rc c. r = Inl (CalledProcessError rc c) \<longrightarrow> ?new \<noteq> [] \<and> last ?new = Exec c rc"
    using n2(4) propagated(6) by (auto split: sum.splits)
  moreover have "fst ` set (writes ?new) \<subseteq>
      {modified_path modified_file src, modified_path modified_file dest}"
    using n1(4) n2(5) by (auto simp: writes_append handler_events)
  ultimately show ?thesis using propagated(1) by (intro exI [of _ ?new]) simp
qed

section \<open>The claims\<close>

subsection \<open>The output classifier\<close>

text \<open>
  C3. Where the two characters \<^verbatim>\<open>") "\<close> stand in a line after \<open>pre\<close>, and no occurrence of
  them starts inside \<open>pre\<close> (so this occurrence is the first), \<^verbatim>\<open>_strip_action_prefix\<close> returns
  exactly what follows them. The line \<^verbatim>\<open>(>f+++++++++ ) dir/file.txt\<close> gives \<^verbatim>\<open>dir/file.txt\<close>.
\<close>

theorem strip_action_prefix_after_first_occurrence:
  assumes "\<not> sublist '') '' (pre @ '')'')"
  shows "strip_action_prefix (pre @ '') '' @ rest) = Inr rest \<and>
         strip_action_prefix ''(>f+++++++++ ) dir/file.txt'' = Inr ''dir/file.txt''"
proof
  from assms show "strip_action_prefix (pre @ '') '' @ rest) = Inr rest"
    by (rule strip_first_occurrence)
  show "strip_action_prefix ''(>f+++++++++ ) dir/file.txt'' = Inr ''dir/file.txt''"
    by (simp add: strip_action_prefix_def)
qed

theorem strip_action_prefix_after_first_occurrence_witness:
  "\<not> sublist '') '' (''(.d..t...... '' @ '')'') \<and>
   strip_action_prefix (''(.d..t...... '' @ '') '' @ ''sub dir/'') = Inr ''sub dir/''"
proof -
  have h: "\<not> sublist '') '' (''(.d..t...... '' @ '')'')"
    by (simp add: sublist_Cons_right prefix_code)
  from strip_action_prefix_after_first_occurrence [OF h, of "''sub dir/''"] h
  show ?thesis by blast
qed

text \<open>
  C4, as amended. The claim says that a path which itself holds \<^verbatim>\<open>") "\<close> is cut short. It is
  not: \<^verbatim>\<open>str.index\<close> finds the first occurrence, and in a line \<^verbatim>\<open>(code) path\<close> whose code
  holds no closing parenthesis (the tool's change codes never do) the first occurrence
  is the one that ends the code. The whole path comes back, whatever it contains.
\<close>

theorem strip_action_prefix_keeps_whole_path:
  assumes "CHR '')'' \<notin> set code"
  shows "strip_action_prefix (''('' @ code @ '') '' @ p) = Inr p"
  using assms by (rule strip_code_path)

theorem strip_action_prefix_keeps_whole_path_witness:
  "CHR '')'' \<notin> set ''>f+++++++++'' \<and> sublist '') '' ''a) b.txt'' \<and>
   strip_action_prefix (''('' @ ''>f+++++++++'' @ '') '' @ ''a) b.txt'') = Inr ''a) b.txt''"
proof -
  have h: "CHR '')'' \<notin> set ''>f+++++++++''" by simp
  have s: "sublist '') '' ''a) b.txt''" by (simp add: sublist_Cons_right prefix_code)
  from strip_action_prefix_keeps_whole_path [OF h, of "''a) b.txt''"] h s
  show ?thesis by blast
qed

text \<open>
  The claim C4 as it is written, refuted: no line \<^verbatim>\<open>(code) path\<close> with a path that holds
  \<^verbatim>\<open>") "\<close> makes \<^verbatim>\<open>_strip_action_prefix\<close> return anything but the path.
\<close>

theorem path_with_separator_is_truncated_counterexample:
  "\<not> (\<exists>code p. CHR '')'' \<notin> set code \<and> sublist '') '' p \<and>
        strip_action_prefix (''('' @ code @ '') '' @ p) \<noteq> Inr p)"
  using strip_code_path by blast

subsection \<open>The integrity verifier's report\<close>

lemma conflicting_items_Inr:
  assumes "conflicting_items conflicts modified = Inr items"
  shows "(\<forall>l\<in>set conflicts \<union> set modified. sublist '') '' l) \<and>
         items = filter (\<lambda>c. strip_action_prefix c \<notin> strip_action_prefix ` set modified)
                   conflicts"
proof (cases "\<forall>l\<in>set conflicts \<union> set modified. sublist '') '' l")
  case True
  from conflicting_items_ok [OF this] assms True show ?thesis by simp
next
  case False
  then have "\<exists>l\<in>set conflicts \<union> set modified. \<not> sublist '') '' l" by simp
  from conflicting_items_fail [OF this] assms show ?thesis by simp
qed

text \<open>
  C1. When every line of the checksum pass and of the modified list has its action code
  (the two comprehensions raise otherwise, see C9), the list \<^verbatim>\<open>conflicting_items\<close> that
  \<^verbatim>\<open>_verify_integrity\<close> builds is the checksum pass filtered, in order: a line is in the
  report if and only if it is a line of the checksum pass and its stripped path is not the
  stripped path of any line of the modified list. So a file that differs by checksum and
  is not in the modified list is reported, and one that is in the modified list is not.
  And an integrity check that returns has written, twice, exactly these lines of the
  tool's \<^verbatim>\<open>-c\<close> dry run, joined by newlines.
\<close>

theorem conflict_report_excludes_exactly_modified:
  "((\<forall>l\<in>set conflicts \<union> set modified. sublist '') '' l) \<longrightarrow>
      (\<exists>items. conflicting_items conflicts modified = Inr items \<and>
         items = filter (\<lambda>c. strip_action_prefix c \<notin> strip_action_prefix ` set modified)
                   conflicts \<and>
         (\<forall>c. (c \<in> set items) =
                (c \<in> set conflicts \<and>
                 strip_action_prefix c \<notin> strip_action_prefix ` set modified)))) \<and>
   (verify_integrity rsync src dest modified conflict_file w = (Inr u, w') \<longrightarrow>
      (let report = str_join [CHR 0x0A]
             (filter (\<lambda>c. strip_action_prefix c \<notin> strip_action_prefix ` set modified)
                (splitlines (dry_run_output rsync [''-c''] src dest w)))
       in map snd (writes (new_events w w')) = [report, report]))"
proof (intro conjI impI)
  assume "\<forall>l\<in>set conflicts \<union> set modified. sublist '') '' l"
  from conflicting_items_ok [OF this]
  show "\<exists>items. conflicting_items conflicts modified = Inr items \<and>
         items = filter (\<lambda>c. strip_action_prefix c \<notin> strip_action_prefix ` set modified)
                   conflicts \<and>
         (\<forall>c. (c \<in> set items) =
                (c \<in> set conflicts \<and>
                 strip_action_prefix c \<notin> strip_action_prefix ` set modified))"
    by auto
next
  assume "verify_integrity rsync src dest modified conflict_file w = (Inr u, w')"
  then show "let report = str_join [CHR 0x0A]
             (filter (\<lambda>c. strip_action_prefix c \<notin> strip_action_prefix ` set modified)
                (splitlines (dry_run_output rsync [''-c''] src dest w)))
       in map snd (writes (new_events w w')) = [report, report]"
  proof (cases rule: verify_integrity_cases)
    case (ok out f items)
    from conflicting_items_Inr [OF ok(4)]
    have "items = filter (\<lambda>c. strip_action_prefix c \<notin> strip_action_prefix ` set modified)
                    (splitlines out)"
      by simp
    moreover from ok(3) have "dry_run_output rsync [''-c''] src dest w = out"
      by (simp add: dry_run_output_def)
    ultimately show ?thesis using ok(9)
      by (simp add: new_events_def writes_append Let_def)
  qed simp_all
qed

lemma demo_verify_integrity:
  "fst (verify_integrity demo_rsync ''a'' ''b'' [''(>f.st......) x''] None demo_world) = Inr ()"
  "fst (verify_integrity demo_rsync ''a'' ''b'' [''(>f.st......) x''] (Some ''c'') demo_world) =
     Inr ()"
  by code_simp+

lemma result_pair: "fst x = a \<Longrightarrow> x = (a, snd x)"
  by (cases x) simp

theorem conflict_report_excludes_exactly_modified_witness:
  "sublist '') '' ''(>fc........) x'' \<and> sublist '') '' ''(>fc........) y'' \<and>
   sublist '') '' ''(>f.st......) x'' \<and>
   conflicting_items [''(>fc........) x'', ''(>fc........) y''] [''(>f.st......) x''] =
     Inr [''(>fc........) y''] \<and>
   verify_integrity demo_rsync ''a'' ''b'' [''(>f.st......) x''] None demo_world =
     (Inr (), snd (verify_integrity demo_rsync ''a'' ''b'' [''(>f.st......) x''] None demo_world)) \<and>
   map snd (writes (new_events demo_world
       (snd (verify_integrity demo_rsync ''a'' ''b'' [''(>f.st......) x''] None demo_world)))) =
     [''(>fc........) y'', ''(>fc........) y'']"
proof -
  let ?w = "snd (verify_integrity demo_rsync ''a'' ''b'' [''(>f.st......) x''] None demo_world)"
  have h: "\<forall>l\<in>set [''(>fc........) x'', ''(>fc........) y''] \<union> set [''(>f.st......) x''].
             sublist '') '' l"
    by (simp add: sublist_Cons_right prefix_code)
  have s: "strip_action_prefix ''(>fc........) x'' = Inr ''x''"
      "strip_action_prefix ''(>fc........) y'' = Inr ''y''"
      "strip_action_prefix ''(>f.st......) x'' = Inr ''x''"
    by (simp_all add: strip_action_prefix_def)
  note v = demo_verify_integrity(1) [THEN result_pair]
  have o: "splitlines (dry_run_output demo_rsync [''-c''] ''a'' ''b'' demo_world) =
             [''(>fc........) x'', ''(>fc........) y'']"
    by code_simp
  note T = conflict_report_excludes_exactly_modified
    [where conflicts = "[''(>fc........) x'', ''(>fc........) y'']"
       and modified = "[''(>f.st......) x'']" and rsync = demo_rsync and src = "''a''"
       and dest = "''b''" and conflict_file = None and w = demo_world and u = "()" and w' = ?w]
  from T [THEN conjunct1] h s
  have 1: "conflicting_items [''(>fc........) x'', ''(>fc........) y''] [''(>f.st......) x''] =
     Inr [''(>fc........) y'']"
    by auto
  from T [THEN conjunct2] v
  have "let report = str_join [CHR 0x0A]
             (filter (\<lambda>c. strip_action_prefix c \<notin>
                  strip_action_prefix ` set [''(>f.st......) x''])
                (splitlines (dry_run_output demo_rsync [''-c''] ''a'' ''b'' demo_world)))
       in map snd (writes (new_events demo_world ?w)) = [report, report]"
    by (rule mp)
  with s have 2: "map snd (writes (new_events demo_world ?w)) =
      [''(>fc........) y'', ''(>fc........) y'']"
    by (simp add: o Let_def)
  from h 1 v 2 show ?thesis by simp
qed

text \<open>
  C9. A string without the two characters \<^verbatim>\<open>") "\<close> makes \<^verbatim>\<open>_strip_action_prefix\<close> raise the
  \<^verbatim>\<open>ValueError\<close> of \<^verbatim>\<open>str.index\<close>. One such line, in the checksum pass or in the modified
  list, makes the two comprehensions raise it; and \<^verbatim>\<open>_verify_integrity\<close>, once the tool has
  returned its output, raises it too and leaves the world as the tool's run left it: no
  line is skipped or passed through, and no conflict file is written.
\<close>

theorem malformed_line_raises_value_error:
  assumes "\<not> sublist '') '' s"
  shows "strip_action_prefix s = Inl (ValueError ''substring not found'') \<and>
         (s \<in> set conflicts \<union> set modified \<longrightarrow>
            conflicting_items conflicts modified = Inl (ValueError ''substring not found'')) \<and>
         (run_rsync rsync [''-c''] src dest True w = (Inr out, w1) \<and>
          s \<in> set (splitlines out) \<union> set modified \<longrightarrow>
            verify_integrity rsync src dest modified conflict_file w =
              (Inl (ValueError ''substring not found''), w1))"
proof (intro conjI impI)
  from assms show "strip_action_prefix s = Inl (ValueError ''substring not found'')"
    by (rule strip_no_occurrence)
next
  assume "s \<in> set conflicts \<union> set modified"
  with assms have "\<exists>l\<in>set conflicts \<union> set modified. \<not> sublist '') '' l" by blast
  then show "conflicting_items conflicts modified = Inl (ValueError ''substring not found'')"
    by (rule conflicting_items_fail)
next
  assume a: "run_rsync rsync [''-c''] src dest True w = (Inr out, w1) \<and>
             s \<in> set (splitlines out) \<union> set modified"
  with assms have "\<exists>l\<in>set (splitlines out) \<union> set modified. \<not> sublist '') '' l" by blast
  then have "conflicting_items (splitlines out) modified = Inl (ValueError ''substring not found'')"
    by (rule conflicting_items_fail)
  with a show "verify_integrity rsync src dest modified conflict_file w =
                 (Inl (ValueError ''substring not found''), w1)"
    by (simp add: verify_integrity_def)
qed

lemma demo_checksum_pass:
  "fst (run_rsync demo_rsync [''-c''] ''a'' ''b'' True demo_world) =
     Inr (''(>fc........) x'' @ [CHR 0x0A] @ ''(>fc........) y'' @ [CHR 0x0A])"
  by code_simp

theorem malformed_line_raises_value_error_witness:
  "\<not> sublist '') '' ''garbage'' \<and>
   strip_action_prefix ''garbage'' = Inl (ValueError ''substring not found'') \<and>
   conflicting_items [''(>fc........) x'', ''garbage''] [] =
     Inl (ValueError ''substring not found'') \<and>
   verify_integrity demo_rsync ''a'' ''b'' [''garbage''] None demo_world =
     (Inl (ValueError ''substring not found''),
      snd (run_rsync demo_rsync [''-c''] ''a'' ''b'' True demo_world))"
proof -
  have h: "\<not> sublist '') '' ''garbage''"
    by (simp add: sublist_Cons_right prefix_code)
  have r: "run_rsync demo_rsync [''-c''] ''a'' ''b'' True demo_world =
             (Inr (''(>fc........) x'' @ [CHR 0x0A] @ ''(>fc........) y'' @ [CHR 0x0A]),
              snd (run_rsync demo_rsync [''-c''] ''a'' ''b'' True demo_world))"
    using demo_checksum_pass by (metis prod.collapse)
  from malformed_line_raises_value_error [OF h, of "[''(>fc........) x'', ''garbage'']" "[]"]
  have 1: "strip_action_prefix ''garbage'' = Inl (ValueError ''substring not found'')"
    and 2: "conflicting_items [''(>fc........) x'', ''garbage''] [] =
              Inl (ValueError ''substring not found'')"
    by simp_all
  from malformed_line_raises_value_error [OF h, of _ "[''garbage'']" demo_rsync "''a''" "''b''"
      demo_world _ _ None] r
  have 3: "verify_integrity demo_rsync ''a'' ''b'' [''garbage''] None demo_world =
     (Inl (ValueError ''substring not found''),
      snd (run_rsync demo_rsync [''-c''] ''a'' ''b'' True demo_world))"
    by simp
  from h 1 2 3 show ?thesis by blast
qed

subsection \<open>The list files\<close>





subsection \<open>The sequence of a run\<close>








lemma main_writes:
  "fst ` set (writes (new_events w
      (snd (main rsync src dest dry_run force logfile conflict_file modified_file v w)))) \<subseteq>
     {modified_path modified_file src, modified_path modified_file dest,
      conflicts_path conflict_file src, conflicts_path conflict_file dest}"
proof -
  obtain r w' where
    h: "main rsync src dest dry_run force logfile conflict_file modified_file v w = (r, w')"
    by (cases "main rsync src dest dry_run force logfile conflict_file modified_file v w") auto
  from main_trace [OF h] obtain new where
    "events w' = events w @ new"
    and sub: "fst ` set (writes new) \<subseteq>
             {modified_path modified_file src, modified_path modified_file dest} \<union>
             (if v then {conflicts_path conflict_file src, conflicts_path conflict_file dest}
              else {})"
    by blast
  then have "new_events w w' = new" by (simp add: new_events_def)
  moreover from sub have "fst ` set (writes new) \<subseteq>
     {modified_path modified_file src, modified_path modified_file dest,
      conflicts_path conflict_file src, conflicts_path conflict_file dest}"
    by (cases v) auto
  ultimately show ?thesis using h by simp
qed



subsection \<open>Failures\<close>

lemma main_extends:
  assumes "main rsync src dest dry_run force logfile conflict_file modified_file v w = (r, w')"
  obtains new where "events w' = events w @ new" and "new_events w w' = new"
    and "list_all (\<lambda>(c, rc). c \<in>
               (if v then {expected_cmd [] src dest True, expected_cmd [''-c''] src dest True}
                else {expected_cmd (if force then [] else [''--ignore-existing'']) src dest dry_run,
                      expected_cmd [] src dest True}))
             (execs new)"
    and "failed_execs new = raised_by_tool r"
    and "\<forall>rc c. r = Inl (CalledProcessError rc c) \<longrightarrow> new \<noteq> [] \<and> last new = Exec c rc"
proof -
  from main_trace [OF assms] obtain new where
    n: "events w' = events w @ new"
      "list_all (\<lambda>(c, rc). c \<in>
               (if v then {expected_cmd [] src dest True, expected_cmd [''-c''] src dest True}
                else {expected_cmd (if force then [] else [''--ignore-existing'']) src dest dry_run,
                      expected_cmd [] src dest True}))
             (execs new)"
      "failed_execs new = raised_by_tool r"
      "\<forall>rc c. r = Inl (CalledProcessError rc c) \<longrightarrow> new \<noteq> [] \<and> last new = Exec c rc"
    by blast
  from n(1) have ne: "new_events w w' = new" by (simp add: new_events_def)
  from n(1) ne n(2) n(3) n(4) show thesis by (rule that)
qed

lemma list_all_cmd_paths:
  assumes "list_all (\<lambda>(c, rc). c \<in> S) xs"
    and "\<forall>c\<in>S. \<exists>args d. c = expected_cmd args src dest d"
  shows "list_all (\<lambda>(c, rc). last (butlast c) = src @ ''/'' \<and> last c = dest @ ''/'') xs"
  using assms by (induction xs) (auto simp: expected_cmd_paths)

text \<open>
  C7. In every run, whatever its outcome: each command line handed to the tool ends with
  the source path and the destination path, each followed by the separator; the
  invocations that ended with a status other than 0 are exactly the one whose
  \<^verbatim>\<open>CalledProcessError\<close> the run raised, if it raised one, and none otherwise (so such a
  status always aborts, and nothing is tried again); and when the run raised it, that
  invocation is the last event of the run (no later step) and the process ends with a
  status other than 0. A call of \<^verbatim>\<open>_run_rsync\<close> on two directories invokes the tool
  once, and returns or raises only with the exit status in hand.
\<close>

theorem tool_failure_aborts_the_run:
  assumes "main rsync src dest dry_run force logfile conflict_file modified_file v w = (r, w')"
  shows "list_all (\<lambda>(c, rc). last (butlast c) = src @ ''/'' \<and> last c = dest @ ''/'')
           (execs (new_events w w')) \<and>
         failed_execs (new_events w w') = raised_by_tool r \<and>
         (\<forall>rc c. r = Inl (CalledProcessError rc c) \<longrightarrow>
            rc \<noteq> 0 \<and> new_events w w' \<noteq> [] \<and> last (new_events w w') = Exec c rc \<and>
            exit_status (r, w') \<noteq> 0) \<and>
         (is_dir (filesys w) src \<and> is_dir (filesys w) dest \<longrightarrow>
            execs (new_events w (snd (run_rsync rsync args src dest d w))) =
              [(expected_cmd args src dest d, fst (rsync (expected_cmd args src dest d)
                       (seen_by_tool w (expected_cmd args src dest d))))] \<and>
            (fst (rsync (expected_cmd args src dest d)
                       (seen_by_tool w (expected_cmd args src dest d))) \<noteq> 0 \<longrightarrow>
               fst (run_rsync rsync args src dest d w) =
                 Inl (CalledProcessError (fst (rsync (expected_cmd args src dest d)
                       (seen_by_tool w (expected_cmd args src dest d))))
                        (expected_cmd args src dest d))))"
proof -
  from assms obtain new where
    n: "new_events w w' = new"
      "list_all (\<lambda>(c, rc). c \<in>
               (if v then {expected_cmd [] src dest True, expected_cmd [''-c''] src dest True}
                else {expected_cmd (if force then [] else [''--ignore-existing'']) src dest dry_run,
                      expected_cmd [] src dest True}))
             (execs new)"
      "failed_execs new = raised_by_tool r"
      "\<forall>rc c. r = Inl (CalledProcessError rc c) \<longrightarrow> new \<noteq> [] \<and> last new = Exec c rc"
    by (rule main_extends)
  have 1: "list_all (\<lambda>(c, rc). last (butlast c) = src @ ''/'' \<and> last c = dest @ ''/'') (execs new)"
    using n(2) by (rule list_all_cmd_paths) (cases v; auto)
  have 3: "rc \<noteq> 0 \<and> new \<noteq> [] \<and> last new = Exec c rc \<and> exit_status (r, w') \<noteq> 0"
    if r: "r = Inl (CalledProcessError rc c)" for rc c
  proof -
    from n(3) r have "(c, rc) \<in> set (failed_execs new)" by (simp add: raised_by_tool_def)
    then have "rc \<noteq> 0" by (auto simp: failed_execs_def)
    with n(4) r show ?thesis by (simp add: exit_status_def)
  qed
  have 4: "execs (new_events w (snd (run_rsync rsync args src dest d w))) =
              [(expected_cmd args src dest d, fst (rsync (expected_cmd args src dest d)
                       (seen_by_tool w (expected_cmd args src dest d))))] \<and>
            (fst (rsync (expected_cmd args src dest d)
                       (seen_by_tool w (expected_cmd args src dest d))) \<noteq> 0 \<longrightarrow>
               fst (run_rsync rsync args src dest d w) =
                 Inl (CalledProcessError (fst (rsync (expected_cmd args src dest d)
                       (seen_by_tool w (expected_cmd args src dest d))))
                        (expected_cmd args src dest d)))"
    if "is_dir (filesys w) src \<and> is_dir (filesys w) dest"
    using that
    by (simp add: run_rsync_unfold new_events_def execs_append split: prod.splits)
  from 1 3 4 n(1,3) show ?thesis by blast
qed


lemma demo_failing_main:
  "fst (main failing_rsync ''a'' ''b'' False False None None None True demo_world) =
     Inl (CalledProcessError 23 (expected_cmd [] ''a'' ''b'' True))"
  by code_simp

lemma demo_dirs: "is_dir (filesys demo_world) ''a''" "is_dir (filesys demo_world) ''b''"
  "\<not> is_dir (filesys demo_world) ''zz''"
  by (simp_all add: demo_world_def demo_fs_def)

theorem tool_failure_aborts_the_run_witness:
  "main failing_rsync ''a'' ''b'' False False None None None True demo_world =
     (Inl (CalledProcessError 23 (expected_cmd [] ''a'' ''b'' True)),
      snd (main failing_rsync ''a'' ''b'' False False None None None True demo_world)) \<and>
   failed_execs (new_events demo_world
       (snd (main failing_rsync ''a'' ''b'' False False None None None True demo_world))) =
     [(expected_cmd [] ''a'' ''b'' True, 23)] \<and>
   last (new_events demo_world
       (snd (main failing_rsync ''a'' ''b'' False False None None None True demo_world))) =
     Exec (expected_cmd [] ''a'' ''b'' True) 23 \<and>
   exit_status (main failing_rsync ''a'' ''b'' False False None None None True demo_world) \<noteq> 0 \<and>
   is_dir (filesys demo_world) ''a'' \<and> is_dir (filesys demo_world) ''b'' \<and>
   fst (failing_rsync (expected_cmd [''-c''] ''a'' ''b'' True)
          (seen_by_tool demo_world (expected_cmd [''-c''] ''a'' ''b'' True))) \<noteq> 0 \<and>
   fst (run_rsync failing_rsync [''-c''] ''a'' ''b'' True demo_world) =
     Inl (CalledProcessError 23 (expected_cmd [''-c''] ''a'' ''b'' True))"
proof -
  let ?m = "main failing_rsync ''a'' ''b'' False False None None None True demo_world"
  note h = demo_failing_main [THEN result_pair]
  have f: "fst (failing_rsync (expected_cmd [''-c''] ''a'' ''b'' True)
          (seen_by_tool demo_world (expected_cmd [''-c''] ''a'' ''b'' True))) = 23"
    by (simp add: failing_rsync_def)
  note T = tool_failure_aborts_the_run [OF h, where args = "[''-c'']" and d = True]
  note t2 = T [THEN conjunct2, THEN conjunct1]
  note t3 = T [THEN conjunct2, THEN conjunct2, THEN conjunct1]
  note t4 = T [THEN conjunct2, THEN conjunct2, THEN conjunct2]
  from t2 have 2: "failed_execs (new_events demo_world (snd ?m)) =
      [(expected_cmd [] ''a'' ''b'' True, 23)]"
    by (simp add: raised_by_tool_def)
  from t3 have 3: "last (new_events demo_world (snd ?m)) = Exec (expected_cmd [] ''a'' ''b'' True) 23"
    and 4: "exit_status (Inl (CalledProcessError 23 (expected_cmd [] ''a'' ''b'' True)), snd ?m) \<noteq> 0"
    by blast+
  from 4 h have 5: "exit_status ?m \<noteq> 0" by simp
  from t4 demo_dirs(1,2) f
  have 6: "fst (run_rsync failing_rsync [''-c''] ''a'' ''b'' True demo_world) =
     Inl (CalledProcessError 23 (expected_cmd [''-c''] ''a'' ''b'' True))"
    by simp
  from f have 7: "fst (failing_rsync (expected_cmd [''-c''] ''a'' ''b'' True)
          (seen_by_tool demo_world (expected_cmd [''-c''] ''a'' ''b'' True))) \<noteq> 0"
    by simp
  from h 2 3 5 demo_dirs(1,2) 7 6 show ?thesis by (intro conjI)
qed




subsection \<open>The integrity verification mode\<close>

lemma check_modified_frame:
  assumes "honours_dry_run rsync"
    and "check_modified rsync src dest modified_file w = (r, w')"
  shows "is_dir (filesys w') = is_dir (filesys w) \<and>
         writable (filesys w') = writable (filesys w) \<and>
         handlers w' = handlers w \<and>
         (\<forall>p. p \<notin> {modified_path modified_file src, modified_path modified_file dest} \<union>
                  set (handlers w) \<longrightarrow>
              files (filesys w') p = files (filesys w) p)"
  using assms(2)
proof (cases rule: check_modified_cases)
  case (not_dir p)
  then show ?thesis by (simp add: log_record_files)
next
  case (failed rc out f)
  from honours_dry_runD [OF assms(1) failed(3)] failed(6,8) show ?thesis
    by (simp add: seen_by_tool_files)
next
  case (write_error out f p ps)
  from honours_dry_runD [OF assms(1) write_error(3)]
  have "f = seen_by_tool w (expected_cmd [] src dest True)" .
  with write_error show ?thesis by (auto simp: seen_by_tool_files)
next
  case (ok out f)
  from honours_dry_runD [OF assms(1) ok(3)]
  have "f = seen_by_tool w (expected_cmd [] src dest True)" .
  with ok show ?thesis by (simp add: seen_by_tool_files)
qed

lemma verify_integrity_frame:
  assumes "honours_dry_run rsync"
    and "verify_integrity rsync src dest modified conflict_file w = (r, w')"
  shows "is_dir (filesys w') = is_dir (filesys w) \<and>
         writable (filesys w') = writable (filesys w) \<and>
         handlers w' = handlers w \<and>
         (\<forall>p. p \<notin> {conflicts_path conflict_file src, conflicts_path conflict_file dest} \<union>
                  set (handlers w) \<longrightarrow>
              files (filesys w') p = files (filesys w) p)"
  using assms(2)
proof (cases rule: verify_integrity_cases)
  case (not_dir p)
  then show ?thesis by (simp add: log_record_files)
next
  case (failed rc out f)
  from honours_dry_runD [OF assms(1) failed(3)] failed(6,8) show ?thesis
    by (simp add: seen_by_tool_files)
next
  case (malformed out f e)
  from honours_dry_runD [OF assms(1) malformed(3)] malformed(6,8) show ?thesis
    by (simp add: seen_by_tool_files handlers_emit_files)
next
  case (write_error out f items p ps)
  from honours_dry_runD [OF assms(1) write_error(3)]
  have "f = seen_by_tool w (expected_cmd [''-c''] src dest True)" .
  with write_error show ?thesis by (auto simp: seen_by_tool_files)
next
  case (ok out f items)
  from honours_dry_runD [OF assms(1) ok(3)]
  have "f = seen_by_tool w (expected_cmd [''-c''] src dest True)" .
  with ok show ?thesis by (simp add: seen_by_tool_files)
qed

lemma main_verify_frame:
  assumes "honours_dry_run rsync"
    and "main rsync src dest dry_run force logfile conflict_file modified_file True w = (r, w')"
  shows "is_dir (filesys w') = is_dir (filesys w) \<and>
         writable (filesys w') = writable (filesys w) \<and>
         (\<forall>p. p \<notin> {modified_path modified_file src, modified_path modified_file dest,
                    conflicts_path conflict_file src, conflicts_path conflict_file dest} \<union>
                  set (handlers w) \<union> set_option logfile \<longrightarrow>
              files (filesys w') p = files (filesys w) p)"
  using assms(2)
proof (cases rule: main_cases)
  case (log_error l)
  then show ?thesis by simp
next
  case (check_error w0 e)
  have hs: "set (handlers w0) = set (handlers w) \<union> set_option logfile"
    by (auto simp: check_error(2) split: option.splits)
  from check_modified_frame [OF assms(1) check_error(4)] hs
  have "is_dir (filesys w') = is_dir (filesys w0)" "writable (filesys w') = writable (filesys w0)"
    "\<forall>p. p \<notin> {modified_path modified_file src, modified_path modified_file dest} \<union>
            set (handlers w) \<union> set_option logfile \<longrightarrow>
         files (filesys w') p = files (filesys w0) p"
    by simp_all
  then show ?thesis by (simp add: check_error(2) after_setup_files)
next
  case (verified w0 modified w1 r2)
  have hs: "set (handlers w0) = set (handlers w) \<union> set_option logfile"
    by (auto simp: verified(2) split: option.splits)
  from check_modified_frame [OF assms(1) verified(4)] hs
  have 1: "is_dir (filesys w1) = is_dir (filesys w0)" "writable (filesys w1) = writable (filesys w0)"
    "handlers w1 = handlers w0"
    "\<forall>p. p \<notin> {modified_path modified_file src, modified_path modified_file dest} \<union>
            set (handlers w) \<union> set_option logfile \<longrightarrow>
         files (filesys w1) p = files (filesys w0) p"
    by simp_all
  from verify_integrity_frame [OF assms(1) verified(5)] 1(3) hs
  have 2: "is_dir (filesys w') = is_dir (filesys w1)" "writable (filesys w') = writable (filesys w1)"
    "\<forall>p. p \<notin> {conflicts_path conflict_file src, conflicts_path conflict_file dest} \<union>
            set (handlers w) \<union> set_option logfile \<longrightarrow>
         files (filesys w') p = files (filesys w1) p"
    by simp_all
  from 1 2 show ?thesis by (simp add: verified(2) after_setup_files)
next
  case (propagate_error w0 e)
  then show ?thesis by simp
next
  case (propagated w0 out w1 r2)
  then show ?thesis by simp
qed

lemma main_verify_execs:
  "list_all (\<lambda>(c, rc). ''--dry-run'' \<in> set c)
     (execs (new_events w
        (snd (main rsync src dest dry_run force logfile conflict_file modified_file True w))))"
proof -
  obtain r w' where
    h: "main rsync src dest dry_run force logfile conflict_file modified_file True w = (r, w')"
    by (cases "main rsync src dest dry_run force logfile conflict_file modified_file True w") auto
  from h obtain new where n: "new_events w w' = new"
    "list_all (\<lambda>(c, rc). c \<in> (if True
        then {expected_cmd [] src dest True, expected_cmd [''-c''] src dest True}
        else {expected_cmd (if force then [] else [''--ignore-existing'']) src dest dry_run,
              expected_cmd [] src dest True})) (execs new)"
    by (rule main_extends)
  from n(2) have "list_all (\<lambda>(c, rc). ''--dry-run'' \<in> set c) (execs new)"
    by (auto simp: list_all_iff dry_run_in_expected_cmd)
  with n(1) h show ?thesis by simp
qed

text \<open>
  C10, as amended. A run in the integrity verification mode is the same run whatever
  \<^verbatim>\<open>--dry-run\<close> and \<^verbatim>\<open>--force\<close> are. Whatever its outcome, every command line it hands to the
  tool holds \<^verbatim>\<open>--dry-run\<close>, and every file the script itself opens for writing is one of the
  two list files, in their default places or at their overrides. So with a tool that
  honours \<^verbatim>\<open>--dry-run\<close> the run leaves the directories as they were, and every file but
  the list files and the files of the logger's file handlers: the one of \<^verbatim>\<open>--logfile\<close>,
  when it is given, and those the logger had before.
\<close>

theorem verify_integrity_mode_only_dry_runs:
  "main rsync src dest dry_run force logfile conflict_file modified_file True w =
     main rsync src dest dry_run' force' logfile conflict_file modified_file True w \<and>
   list_all (\<lambda>(c, rc). ''--dry-run'' \<in> set c)
     (execs (new_events w
        (snd (main rsync src dest dry_run force logfile conflict_file modified_file True w)))) \<and>
   fst ` set (writes (new_events w
        (snd (main rsync src dest dry_run force logfile conflict_file modified_file True w)))) \<subseteq>
     {modified_path modified_file src, modified_path modified_file dest,
      conflicts_path conflict_file src, conflicts_path conflict_file dest} \<and>
   (honours_dry_run rsync \<longrightarrow>
      is_dir (filesys
        (snd (main rsync src dest dry_run force logfile conflict_file modified_file True w))) =
        is_dir (filesys w) \<and>
      writable (filesys
        (snd (main rsync src dest dry_run force logfile conflict_file modified_file True w))) =
        writable (filesys w) \<and>
      (\<forall>p. p \<notin> {modified_path modified_file src, modified_path modified_file dest,
                 conflicts_path conflict_file src, conflicts_path conflict_file dest} \<union>
               set (handlers w) \<union> set_option logfile \<longrightarrow>
           files (filesys
             (snd (main rsync src dest dry_run force logfile conflict_file modified_file True w))) p =
             files (filesys w) p))"
proof (intro conjI impI)
  let ?m = "main rsync src dest dry_run force logfile conflict_file modified_file True w"
  show "?m = main rsync src dest dry_run' force' logfile conflict_file modified_file True w"
    by (simp add: main_def split: prod.splits sum.splits)
  show "list_all (\<lambda>(c, rc). ''--dry-run'' \<in> set c) (execs (new_events w (snd ?m)))"
    by (rule main_verify_execs)
  show "fst ` set (writes (new_events w (snd ?m))) \<subseteq>
     {modified_path modified_file src, modified_path modified_file dest,
      conflicts_path conflict_file src, conflicts_path conflict_file dest}"
    by (rule main_writes)
  assume h: "honours_dry_run rsync"
  have pr: "?m = (fst ?m, snd ?m)" by simp
  note F = main_verify_frame [OF h pr]
  from F show "is_dir (filesys (snd ?m)) = is_dir (filesys w)" by (elim conjE)
  from F show "writable (filesys (snd ?m)) = writable (filesys w)" by (elim conjE)
  from F show "\<forall>p. p \<notin> {modified_path modified_file src, modified_path modified_file dest,
                 conflicts_path conflict_file src, conflicts_path conflict_file dest} \<union>
               set (handlers w) \<union> set_option logfile \<longrightarrow>
           files (filesys (snd ?m)) p = files (filesys w) p"
    by (elim conjE)
qed

lemma demo_honours_dry_run: "honours_dry_run demo_rsync"
  by (simp add: honours_dry_run_def demo_rsync_def Let_def)

lemma demo_propagates:
  "files (filesys (snd (main demo_rsync ''a'' ''b'' False True None None None False demo_world)))
     ''b/n'' = Some ''new''"
  by code_simp

lemma demo_list_paths:
  "modified_path None ''a'' = ''a/easy-rsync_modified.txt''"
  "modified_path None ''b'' = ''b/easy-rsync_modified.txt''"
  "conflicts_path None ''a'' = ''a/easy-rsync_conflicts.txt''"
  "conflicts_path None ''b'' = ''b/easy-rsync_conflicts.txt''"
  by (simp_all add: modified_path_def conflicts_path_def path_join_def)

theorem verify_integrity_mode_only_dry_runs_witness:
  "honours_dry_run demo_rsync \<and>
   ''b/n'' \<notin> {modified_path None ''a'', modified_path None ''b'',
              conflicts_path None ''a'', conflicts_path None ''b''} \<union>
             set (handlers demo_world) \<union> set_option (Some ''a/log'') \<and>
   files (filesys (snd (main demo_rsync ''a'' ''b'' False True (Some ''a/log'') None None True
                          demo_world)))
     ''b/n'' = files (filesys demo_world) ''b/n'' \<and>
   main demo_rsync ''a'' ''b'' False True (Some ''a/log'') None None True demo_world =
     main demo_rsync ''a'' ''b'' True False (Some ''a/log'') None None True demo_world"
proof -
  note T = verify_integrity_mode_only_dry_runs
    [where rsync = demo_rsync and src = "''a''" and dest = "''b''" and dry_run = False
       and force = True and logfile = "Some ''a/log''" and conflict_file = None
       and modified_file = None and w = demo_world and dry_run' = True and force' = False]
  note t1 = T [THEN conjunct1]
  note t4 = T [THEN conjunct2, THEN conjunct2, THEN conjunct2]
  have p: "''b/n'' \<notin> {modified_path None ''a'', modified_path None ''b'',
              conflicts_path None ''a'', conflicts_path None ''b''} \<union>
             set (handlers demo_world) \<union> set_option (Some ''a/log'')"
    by (simp add: demo_list_paths demo_world_def)
  from t4 demo_honours_dry_run p
  have "files (filesys (snd (main demo_rsync ''a'' ''b'' False True (Some ''a/log'') None None
          True demo_world))) ''b/n'' = files (filesys demo_world) ''b/n''"
    by blast
  with demo_honours_dry_run p t1 show ?thesis by (intro conjI)
qed

text \<open>
  The claim C10 as it is written, refuted: a verification run with \<^verbatim>\<open>--logfile a/log\<close>, on
  two directories that hold no such file and with a tool that honours \<^verbatim>\<open>--dry-run\<close>,
  returns and leaves in the source directory a file that is neither of the list files:
  the diagnostic log, with the records of the run.
\<close>

theorem only_list_files_written_counterexample:
  "honours_dry_run demo_rsync \<and>
   fst (main demo_rsync ''a'' ''b'' False False (Some ''a/log'') None None True demo_world) =
     Inr 0 \<and>
   ''a/log'' \<notin> {modified_path None ''a'', modified_path None ''b'',
                conflicts_path None ''a'', conflicts_path None ''b''} \<and>
   files (filesys demo_world) ''a/log'' = None \<and>
   files (filesys (snd (main demo_rsync ''a'' ''b'' False False (Some ''a/log'') None None True
                          demo_world))) ''a/log'' =
     Some (''Running rsync: rsync -rptgo -i --out-format=(%i) %n --dry-run a/ b/'' @ [CHR 0x0A] @
           ''(>f.st......) x'' @ [CHR 0x0A, CHR 0x0A] @
           ''Found 1 files that have been modified'' @ [CHR 0x0A] @
           ''Running rsync: rsync -rptgo -i --out-format=(%i) %n -c --dry-run a/ b/'' @
           [CHR 0x0A] @
           ''(>fc........) x'' @ [CHR 0x0A] @ ''(>fc........) y'' @ [CHR 0x0A, CHR 0x0A] @
           ''Found 1 files that have bitrot'' @ [CHR 0x0A])"
proof (intro conjI)
  show "honours_dry_run demo_rsync" by (rule demo_honours_dry_run)
  show "fst (main demo_rsync ''a'' ''b'' False False (Some ''a/log'') None None True demo_world) =
     Inr 0"
    by code_simp
  show "''a/log'' \<notin> {modified_path None ''a'', modified_path None ''b'',
                conflicts_path None ''a'', conflicts_path None ''b''}"
    by (simp add: demo_list_paths)
  show "files (filesys demo_world) ''a/log'' = None"
    by (simp add: demo_world_def demo_fs_def)
  show "files (filesys (snd (main demo_rsync ''a'' ''b'' False False (Some ''a/log'') None None True
                          demo_world))) ''a/log'' =
     Some (''Running rsync: rsync -rptgo -i --out-format=(%i) %n --dry-run a/ b/'' @ [CHR 0x0A] @
           ''(>f.st......) x'' @ [CHR 0x0A, CHR 0x0A] @
           ''Found 1 files that have been modified'' @ [CHR 0x0A] @
           ''Running rsync: rsync -rptgo -i --out-format=(%i) %n -c --dry-run a/ b/'' @
           [CHR 0x0A] @
           ''(>fc........) x'' @ [CHR 0x0A] @ ''(>fc........) y'' @ [CHR 0x0A, CHR 0x0A] @
           ''Found 1 files that have bitrot'' @ [CHR 0x0A])"
    by code_simp
qed

end
